theory Spec2Isabelle
  imports Complex_Main
begin

section \<open>JavaScript strings\<close>

text \<open>
  A string the program receives is a list of UTF-16 code units, which is what
  \<^verbatim>\<open>length\<close>, \<^verbatim>\<open>startsWith\<close>, \<^verbatim>\<open>trim\<close> and the regular expressions of the source work on.
  \<open>units\<close> gives the code units of a literal written in ASCII. The messages the program
  itself produces stay HOL strings.
\<close>

type_synonym jstext = "nat list"

definition units :: "string \<Rightarrow> jstext" where
  "units s = map of_char s"

section \<open>Wallet address validation\<close>

text \<open>
  Both validators test the address against the regular expression
  \<^verbatim>\<open>/^0x[a-fA-F0-9]{40}$/\<close>. The character class is written out as the three
  ranges of code units it names; the anchors make the match cover the whole string.
\<close>

definition is_hex :: "nat \<Rightarrow> bool" where
  "is_hex c = ((97 \<le> c \<and> c \<le> 102) \<or> (65 \<le> c \<and> c \<le> 70) \<or> (48 \<le> c \<and> c \<le> 57))"

definition startsWith :: "jstext \<Rightarrow> jstext \<Rightarrow> bool" where
  "startsWith s p = (take (length p) s = p)"

definition address_regex :: "jstext \<Rightarrow> bool" where
  "address_regex s =
     (startsWith s (units ''0x'') \<and> length (drop 2 s) = 40 \<and> list_all is_hex (drop 2 s))"

text \<open>\<^verbatim>\<open>/[A-F]/.test\<close> and \<^verbatim>\<open>/[a-f]/.test\<close>: some code unit of the range occurs.\<close>

definition has_upper_hex :: "jstext \<Rightarrow> bool" where
  "has_upper_hex s = list_ex (\<lambda>c. 65 \<le> c \<and> c \<le> 70) s"

definition has_lower_hex :: "jstext \<Rightarrow> bool" where
  "has_lower_hex s = list_ex (\<lambda>c. 97 \<le> c \<and> c \<le> 102) s"

text \<open>
  The extension's validator (\<^verbatim>\<open>utils/validation\<close> of the extension). \<open>None\<close> is the
  source's \<^verbatim>\<open>null\<close>. The block guarded by \<^verbatim>\<open>hasUpperCase && hasLowerCase\<close> is
  empty in the source, so both branches fall through to \<^verbatim>\<open>return null\<close>.
\<close>

definition validateWalletAddress :: "jstext \<Rightarrow> string option" where
  "validateWalletAddress address =
     (if address = [] then Some ''Wallet address is required''
      else if \<not> startsWith address (units ''0x'') then Some ''Wallet address must start with 0x''
      else if length address \<noteq> 42
        then Some ''Wallet address must be 42 characters (0x followed by 40 hex characters)''
      else if \<not> address_regex address
        then Some ''Wallet address contains invalid characters. Only 0-9 and a-f are allowed''
      else (let hasUpperCase = has_upper_hex (drop 2 address);
                hasLowerCase = has_lower_hex (drop 2 address)
            in if hasUpperCase \<and> hasLowerCase then None else None))"

text \<open>The web frontend's validator of the same name.\<close>

definition validateWalletAddress_web :: "jstext \<Rightarrow> string option" where
  "validateWalletAddress_web address =
     (if address = [] then Some ''Wallet address is required''
      else if \<not> address_regex address
        then Some ''Invalid wallet address format. Must be 0x followed by 40 hexadecimal characters''
      else None)"

text \<open>Lower-casing of the ASCII letters, enough to compare two spellings of one
  hexadecimal address.\<close>

definition toLowerCase_unit :: "nat \<Rightarrow> nat" where
  "toLowerCase_unit c = (if 65 \<le> c \<and> c \<le> 90 then c + 32 else c)"

definition toLowerCase :: "jstext \<Rightarrow> jstext" where
  "toLowerCase s = map toLowerCase_unit s"

definition mixed_case :: "jstext \<Rightarrow> bool" where
  "mixed_case address = (has_upper_hex (drop 2 address) \<and> has_lower_hex (drop 2 address))"


section \<open>JavaScript numbers as the frontend reads them\<close>

text \<open>
  \<^verbatim>\<open>validatePaymentAmount\<close> compares a Number with constants and counts the characters
  that follow the decimal point of \<^verbatim>\<open>numAmount.toString()\<close>. A finite non-zero Number is
  modelled by what \<^verbatim>\<open>Number::toString\<close> of ECMAScript reads from it: its sign, the
  digits \<open>d\<^sub>1 \<dots> d\<^sub>k\<close> of the shortest decimal that denotes it (no leading and no
  trailing zero) and the exponent \<open>n\<close> with value \<open>0.d\<^sub>1\<dots>d\<^sub>k \<times> 10\<^sup>n\<close>. Every Number has
  exactly one such reading, so a statement about all well-formed readings covers all
  Numbers. In \<open>Infinity neg\<close>, \<open>Zero neg\<close> and \<open>Dec neg ds n\<close> the flag \<open>neg\<close> is the
  sign bit.
\<close>

datatype jsnum = NaN | Infinity bool | Zero bool | Dec bool "nat list" int

definition wf_digits :: "nat list \<Rightarrow> bool" where
  "wf_digits ds = (ds \<noteq> [] \<and> list_all (\<lambda>d. d < 10) ds \<and> hd ds \<noteq> 0 \<and> last ds \<noteq> 0)"

fun wf_num :: "jsnum \<Rightarrow> bool" where
  "wf_num (Dec neg ds n) = wf_digits ds"
| "wf_num _ = True"

definition digits_nat :: "nat list \<Rightarrow> nat" where
  "digits_nat ds = foldl (\<lambda>a d. 10 * a + d) 0 ds"

definition dec_val :: "nat list \<Rightarrow> int \<Rightarrow> rat" where
  "dec_val ds n =
     (if int (length ds) \<le> n then of_nat (digits_nat ds) * 10 ^ nat (n - int (length ds))
      else of_nat (digits_nat ds) / 10 ^ nat (int (length ds) - n))"

fun js_val :: "jsnum \<Rightarrow> rat" where
  "js_val (Dec neg ds n) = (if neg then - dec_val ds n else dec_val ds n)"
| "js_val _ = 0"

fun isNaN :: "jsnum \<Rightarrow> bool" where
  "isNaN NaN = True"
| "isNaN _ = False"

text \<open>The operators \<^verbatim>\<open><\<close> and \<^verbatim>\<open>===\<close> on Numbers: comparisons with NaN are false,
  the two zeros are equal.\<close>

fun js_less :: "jsnum \<Rightarrow> jsnum \<Rightarrow> bool" where
  "js_less NaN _ = False"
| "js_less _ NaN = False"
| "js_less (Infinity a) (Infinity b) = (a \<and> \<not> b)"
| "js_less (Infinity a) _ = a"
| "js_less _ (Infinity b) = (\<not> b)"
| "js_less x y = (js_val x < js_val y)"

fun js_strict_eq :: "jsnum \<Rightarrow> jsnum \<Rightarrow> bool" where
  "js_strict_eq NaN _ = False"
| "js_strict_eq _ NaN = False"
| "js_strict_eq (Infinity a) (Infinity b) = (a = b)"
| "js_strict_eq (Infinity a) _ = False"
| "js_strict_eq _ (Infinity b) = False"
| "js_strict_eq x y = (js_val x = js_val y)"

definition digit_char :: "nat \<Rightarrow> char" where
  "digit_char d = ''0123456789'' ! d"

fun nat_digits :: "nat \<Rightarrow> nat list" where
  "nat_digits m = (if m < 10 then [m] else nat_digits (m div 10) @ [m mod 10])"

declare nat_digits.simps [simp del]

definition nat_toString :: "nat \<Rightarrow> string" where
  "nat_toString m = map digit_char (nat_digits m)"

text \<open>
  \<^verbatim>\<open>Number::toString\<close> in radix 10, case by case as ECMAScript gives it: integers up to
  21 digits, decimals with the point inside the digits, decimals below one with up to
  six zeros after the point, and the exponential form for everything else.
\<close>

definition dec_toString :: "nat list \<Rightarrow> int \<Rightarrow> string" where
  "dec_toString ds n =
     (let k = int (length ds); cs = map digit_char ds in
      if k \<le> n \<and> n \<le> 21 then cs @ replicate (nat (n - k)) (CHR ''0'')
      else if 0 < n \<and> n \<le> 21 then take (nat n) cs @ ''.'' @ drop (nat n) cs
      else if - 6 < n \<and> n \<le> 0 then ''0.'' @ replicate (nat (- n)) (CHR ''0'') @ cs
      else (let e = n - 1;
                sign = (if e < 0 then ''-'' else ''+'');
                ex = nat_toString (nat \<bar>e\<bar>)
            in if k = 1 then cs @ ''e'' @ sign @ ex
               else take 1 cs @ ''.'' @ drop 1 cs @ ''e'' @ sign @ ex))"

fun toString :: "jsnum \<Rightarrow> string" where
  "toString NaN = ''NaN''"
| "toString (Zero neg) = ''0''"
| "toString (Infinity neg) = (if neg then ''-Infinity'' else ''Infinity'')"
| "toString (Dec neg ds n) = (if neg then ''-'' else []) @ dec_toString ds n"

text \<open>\<^verbatim>\<open>String.prototype.split\<close> with a one-character separator.\<close>

fun split_on :: "char \<Rightarrow> string \<Rightarrow> string list" where
  "split_on sep [] = [[]]"
| "split_on sep (c # cs) =
     (if c = sep then [] # split_on sep cs
      else (case split_on sep cs of p # ps \<Rightarrow> (c # p) # ps | [] \<Rightarrow> [[c]]))"

text \<open>\<^verbatim>\<open>numAmount.toString().split('.')[1]?.length || 0\<close>\<close>

definition decimal_part_length :: "jsnum \<Rightarrow> nat" where
  "decimal_part_length x =
     (case drop 1 (split_on (CHR ''.'') (toString x)) of [] \<Rightarrow> 0 | p # ps \<Rightarrow> length p)"

section \<open>Payment amount validation (frontend)\<close>

text \<open>
  \<^verbatim>\<open>validatePaymentAmount(amount: string | number)\<close>. A string argument goes through the
  built-in \<^verbatim>\<open>parseFloat\<close>, which is a parameter of the model.
\<close>

datatype amount_arg = Str string | Num jsnum

definition validatePaymentAmount :: "(string \<Rightarrow> jsnum) \<Rightarrow> amount_arg \<Rightarrow> string option" where
  "validatePaymentAmount parseFloat amount =
     (let numAmount = (case amount of Str s \<Rightarrow> parseFloat s | Num x \<Rightarrow> x) in
      if isNaN numAmount then Some ''Payment amount must be a valid number''
      else if js_less numAmount (Zero False) then Some ''Payment amount cannot be negative''
      else if js_strict_eq numAmount (Zero False)
        then Some ''Payment amount must be greater than zero''
      else if js_less (Dec False [1] 5) numAmount
        then Some ''Payment amount cannot exceed $10,000 USDC''
      else if 2 < decimal_part_length numAmount
        then Some ''Payment amount can have at most 2 decimal places''
      else None)"

text \<open>
  What the claim calls the number of decimal places, stated on the value and not on a
  printed form: a value has at most two decimal places when a hundred times the value
  is an integer.
\<close>

definition at_most_two_decimals :: "jsnum \<Rightarrow> bool" where
  "at_most_two_decimals x = (of_int \<lfloor>js_val x * 100\<rfloor> = js_val x * 100)"


section \<open>Approval handlers of the dashboard (frontend)\<close>

text \<open>
  An awaited call either resolves with a value or rejects with an error. Of an error the
  handlers read \<^verbatim>\<open>error.message\<close>, \<^verbatim>\<open>error.response?.status\<close> and the fields
  \<^verbatim>\<open>error\<close> and \<^verbatim>\<open>detail\<close> of \<^verbatim>\<open>error.response?.data\<close>; an absent field is \<open>None\<close>.
\<close>

record js_error =
  message :: string
  response_status :: "nat option"
  response_error :: "string option"
  response_detail :: "string option"

datatype 'a outcome = Resolved 'a | Rejected js_error

text \<open>What a handler does that the page or the backend can observe, in order.\<close>

datatype effect =
    Alert string
  | Confirm string
  | SetLoading bool
  | SetError string
  | Approve_request nat jsnum
  | Console_error nat js_error
  | LoadPendingAssignments

record project =
  project_id :: nat
  price_per_task :: string

text \<open>
  A pending assignment as the handlers read it: its id and the two places a task object
  may sit in, \<^verbatim>\<open>assignment.task_data\<close> and \<^verbatim>\<open>assignment.task\<close>. Of a task object only
  \<^verbatim>\<open>task.project\<close> is read; \<open>None\<close> is an absent field.
\<close>

record task =
  task_project :: "nat option"

record assignment =
  assignment_id :: nat
  task_data :: "task option"
  assignment_task :: "task option"

record app_state =
  selectedAssignments :: "nat list"
  pendingAssignments :: "assignment list"
  projects :: "project list"

text \<open>
  The environment of the page: the built-ins \<^verbatim>\<open>parseFloat\<close>, \<^verbatim>\<open>+\<close> on Numbers and
  \<^verbatim>\<open>toFixed(2)\<close>, the user's answer to \<^verbatim>\<open>window.confirm\<close>, and the backend's answer
  to \<^verbatim>\<open>assignmentsAPI.approve\<close>.
\<close>

record page_env =
  parseFloat :: "string \<Rightarrow> jsnum"
  js_plus :: "jsnum \<Rightarrow> jsnum \<Rightarrow> jsnum"
  toFixed2 :: "jsnum \<Rightarrow> string"
  window_confirm :: "string \<Rightarrow> bool"
  approve :: "nat \<Rightarrow> jsnum \<Rightarrow> unit outcome"

text \<open>\<^verbatim>\<open>assignment?.task_data || assignment?.task\<close>\<close>

definition task_of :: "assignment option \<Rightarrow> task option" where
  "task_of a =
     (case a of None \<Rightarrow> None
      | Some x \<Rightarrow> (case task_data x of Some t \<Rightarrow> Some t | None \<Rightarrow> assignment_task x))"

text \<open>
  \<^verbatim>\<open>project?.price_per_task ? parseFloat(project.price_per_task) : 5.00\<close> for the project
  found by \<^verbatim>\<open>projects.find(p => p.id === task?.project)\<close>.
\<close>

definition default_price :: "page_env \<Rightarrow> project list \<Rightarrow> assignment option \<Rightarrow> jsnum" where
  "default_price env ps a =
     (let task_proj = (case task_of a of None \<Rightarrow> None | Some t \<Rightarrow> task_project t);
          project = (case task_proj of None \<Rightarrow> None
                     | Some i \<Rightarrow> find (\<lambda>p. project_id p = i) ps)
      in case project of
           None \<Rightarrow> Dec False [5] 1
         | Some p \<Rightarrow> if price_per_task p \<noteq> [] then parseFloat env (price_per_task p)
                     else Dec False [5] 1)"

definition find_assignment :: "app_state \<Rightarrow> nat \<Rightarrow> assignment option" where
  "find_assignment st i = find (\<lambda>a. assignment_id a = i) (pendingAssignments st)"

text \<open>The first loop of \<^verbatim>\<open>handleBatchApprove\<close>: the total of the confirmation dialog.\<close>

fun total_payment :: "page_env \<Rightarrow> app_state \<Rightarrow> jsnum \<Rightarrow> nat list \<Rightarrow> jsnum" where
  "total_payment env st totalPayment [] = totalPayment"
| "total_payment env st totalPayment (i # ids) =
     (case find_assignment st i of
        Some a \<Rightarrow>
          total_payment env st (js_plus env totalPayment (default_price env (projects st) (Some a))) ids
      | None \<Rightarrow> total_payment env st totalPayment ids)"

text \<open>
  The second loop: one approve request per selected id, counting the calls that resolve
  and the calls that reject. The result is the effects in order and the two counters.
\<close>

fun approve_loop ::
  "page_env \<Rightarrow> app_state \<Rightarrow> nat list \<Rightarrow> nat \<Rightarrow> nat \<Rightarrow> effect list \<times> nat \<times> nat" where
  "approve_loop env st [] successCount errorCount = ([], successCount, errorCount)"
| "approve_loop env st (i # ids) successCount errorCount =
     (let paymentAmount = default_price env (projects st) (find_assignment st i) in
      case approve env i paymentAmount of
        Resolved _ \<Rightarrow>
          (let (es, s, e) = approve_loop env st ids (successCount + 1) errorCount
           in (Approve_request i paymentAmount # es, s, e))
      | Rejected err \<Rightarrow>
          (let (es, s, e) = approve_loop env st ids successCount (errorCount + 1)
           in (Approve_request i paymentAmount # Console_error i err # es, s, e)))"

definition confirm_message :: "page_env \<Rightarrow> app_state \<Rightarrow> string" where
  "confirm_message env st =
     ''Approve '' @ nat_toString (length (selectedAssignments st))
       @ '' assignment(s) for a total of $''
       @ toFixed2 env (total_payment env st (Zero False) (selectedAssignments st))
       @ '' USDC?''"

definition result_message :: "nat \<Rightarrow> nat \<Rightarrow> string" where
  "result_message successCount errorCount =
     (if errorCount = 0
      then ''Successfully approved '' @ nat_toString successCount @ '' assignment(s)!''
      else ''Approved '' @ nat_toString successCount @ '' assignment(s). Failed: ''
             @ nat_toString errorCount)"

definition handleBatchApprove :: "page_env \<Rightarrow> app_state \<Rightarrow> effect list" where
  "handleBatchApprove env st =
     (if selectedAssignments st = []
      then [Alert ''Please select at least one assignment to approve.'']
      else if \<not> window_confirm env (confirm_message env st)
      then [Confirm (confirm_message env st)]
      else (let (es, successCount, errorCount) =
                  approve_loop env st (selectedAssignments st) 0 0
            in [Confirm (confirm_message env st), SetLoading True] @ es
               @ [SetLoading False, LoadPendingAssignments,
                  Alert (result_message successCount errorCount)]))"

text \<open>
  \<^verbatim>\<open>handleApproveAssignment\<close>: the amount is validated first, and the handler returns
  with the validation message when there is one.
\<close>

definition handleApproveAssignment :: "page_env \<Rightarrow> nat \<Rightarrow> jsnum \<Rightarrow> effect list" where
  "handleApproveAssignment env assignmentId paymentAmount =
     (let paymentError = validatePaymentAmount (parseFloat env) (Num paymentAmount);
          send = SetLoading True # Approve_request assignmentId paymentAmount #
            (case approve env assignmentId paymentAmount of
               Resolved _ \<Rightarrow> [LoadPendingAssignments, SetError []]
             | Rejected err \<Rightarrow>
                 [SetError (case response_error err of
                              None \<Rightarrow> ''Failed to approve assignment''
                            | Some reason \<Rightarrow>
                                if reason \<noteq> [] then reason
                                else ''Failed to approve assignment'')])
            @ [SetLoading False]
      in case paymentError of
           None \<Rightarrow> send
         | Some m \<Rightarrow> if m \<noteq> [] then [SetError m] else send)"

text \<open>The messages a handler puts before the researcher: dialogs and the error banner.\<close>

fun shown_to_user :: "effect \<Rightarrow> string list" where
  "shown_to_user (Alert m) = [m]"
| "shown_to_user (Confirm m) = [m]"
| "shown_to_user (SetError m) = [m]"
| "shown_to_user _ = []"

definition shown :: "effect list \<Rightarrow> string list" where
  "shown es = concat (map shown_to_user es)"

definition approve_requests :: "effect list \<Rightarrow> (nat \<times> jsnum) list" where
  "approve_requests es = concat (map (\<lambda>e. case e of Approve_request i a \<Rightarrow> [(i, a)] | _ \<Rightarrow> []) es)"

text \<open>
  How the selection changes. \<^verbatim>\<open>loadPendingAssignments\<close> replaces the pending list by
  the list it fetched and clears the selection, or empties the pending list and leaves the
  selection when the request fails. \<^verbatim>\<open>toggleAssignmentSelection\<close> deletes the id from
  the selection when it is there and adds it otherwise, whatever the pending list holds.
  \<^verbatim>\<open>toggleSelectAll\<close> clears the selection when it has as many members as the pending
  list has entries, and selects the ids of the pending list otherwise. The selection is a
  \<^verbatim>\<open>Set\<close>, kept here as a list in insertion order.
\<close>

definition loadPendingAssignments :: "assignment list outcome \<Rightarrow> app_state \<Rightarrow> app_state" where
  "loadPendingAssignments answer st =
     (case answer of
        Resolved assignments \<Rightarrow> st\<lparr>pendingAssignments := assignments, selectedAssignments := []\<rparr>
      | Rejected err \<Rightarrow> st\<lparr>pendingAssignments := []\<rparr>)"

definition toggleAssignmentSelection :: "nat \<Rightarrow> app_state \<Rightarrow> app_state" where
  "toggleAssignmentSelection assignmentId st =
     (if assignmentId \<in> set (selectedAssignments st)
      then st\<lparr>selectedAssignments := removeAll assignmentId (selectedAssignments st)\<rparr>
      else st\<lparr>selectedAssignments := selectedAssignments st @ [assignmentId]\<rparr>)"

definition toggleSelectAll :: "app_state \<Rightarrow> app_state" where
  "toggleSelectAll st =
     (if length (selectedAssignments st) = length (pendingAssignments st)
      then st\<lparr>selectedAssignments := []\<rparr>
      else st\<lparr>selectedAssignments :=
             rev (remdups (rev (map assignment_id (pendingAssignments st))))\<rparr>)"

datatype ui_event = Load "assignment list outcome" | Toggle nat | Toggle_all

fun ui_step :: "ui_event \<Rightarrow> app_state \<Rightarrow> app_state" where
  "ui_step (Load answer) st = loadPendingAssignments answer st"
| "ui_step (Toggle i) st = toggleAssignmentSelection i st"
| "ui_step Toggle_all st = toggleSelectAll st"

text \<open>
  What the page renders: a checkbox bound to \<^verbatim>\<open>toggleAssignmentSelection(assignment.id)\<close>
  for each entry of the pending list, the checkbox "Select All" when the pending list is
  not empty, and the button "Approve Selected" when both lists are non-empty. A load can
  start at any time.
\<close>

fun rendered :: "ui_event \<Rightarrow> app_state \<Rightarrow> bool" where
  "rendered (Load answer) st = True"
| "rendered (Toggle i) st = (i \<in> assignment_id ` set (pendingAssignments st))"
| "rendered Toggle_all st = (pendingAssignments st \<noteq> [])"

fun rendered_run :: "ui_event list \<Rightarrow> app_state \<Rightarrow> bool" where
  "rendered_run [] st = True"
| "rendered_run (e # es) st = (rendered e st \<and> rendered_run es (ui_step e st))"

definition approve_selected_offered :: "app_state \<Rightarrow> bool" where
  "approve_selected_offered st = (pendingAssignments st \<noteq> [] \<and> selectedAssignments st \<noteq> [])"

definition selection_inv :: "app_state \<Rightarrow> bool" where
  "selection_inv st =
     (pendingAssignments st = []
      \<or> set (selectedAssignments st) \<subseteq> assignment_id ` set (pendingAssignments st))"

section \<open>The task panel's webview script (extension)\<close>

text \<open>
  Text a user types is a list of UTF-16 code units, as the script sees it.
  \<^verbatim>\<open>String.prototype.trim\<close> removes the white space and line terminator code points of
  ECMAScript from both ends: TAB, LF, VT, FF, CR, SPACE, NBSP, U+1680, U+2000 to U+200A,
  U+2028, U+2029, U+202F, U+205F, U+3000 and U+FEFF.
\<close>

definition isWhiteSpace :: "nat \<Rightarrow> bool" where
  "isWhiteSpace c =
     (c \<in> set [9, 10, 11, 12, 13, 32, 160, 5760, 8232, 8233, 8239, 8287, 12288, 65279]
      \<or> (8192 \<le> c \<and> c \<le> 8202))"

definition trim :: "jstext \<Rightarrow> jstext" where
  "trim s = rev (dropWhile isWhiteSpace (rev (dropWhile isWhiteSpace s)))"

text \<open>
  The messages the script posts to the extension host. The result of a generic
  annotation is the value \<^verbatim>\<open>JSON.parse\<close> returns, or the object
  \<^verbatim>\<open>{ annotation: annotationText }\<close> when parsing throws.
\<close>

datatype 'j annotation_result = Parsed 'j | Annotation_object jstext

datatype 'j message =
    Claim_task nat
  | Claim_task_from_project nat
  | Submit_assignment nat "'j annotation_result"

datatype button = Claim_button nat | Claim_project_button nat | Submit_generic_button nat

text \<open>The callbacks the script hands to \<^verbatim>\<open>setTimeout\<close>.\<close>

datatype timer_callback = Reset_isClaimingTask | Remove_error_div nat

text \<open>
  The script's state: the flag \<^verbatim>\<open>isClaimingTask\<close>, the messages posted so far, the
  pending timers with the time each becomes due, the clock in milliseconds, and what
  the script reads and writes in the document: the value of the textarea
  \<^verbatim>\<open>generic-annotation-<id>\<close> (\<open>None\<close> when there is no such element), the buttons
  present (with a parent element), the buttons disabled and the error notes shown,
  each with the number under which its removal is scheduled.
\<close>

record 'j webview =
  isClaimingTask :: bool
  posted :: "'j message list"
  timers :: "(nat \<times> timer_callback) list"
  now :: nat
  textarea :: "nat \<Rightarrow> jstext option"
  buttons :: "button list"
  disabled :: "button list"
  error_divs :: "(nat \<times> string) list"
  divs_created :: nat

definition disable :: "button \<Rightarrow> 'j webview \<Rightarrow> 'j webview" where
  "disable b w = (if b \<in> set (buttons w) then w\<lparr>disabled := disabled w @ [b]\<rparr> else w)"

definition setTimeout :: "timer_callback \<Rightarrow> nat \<Rightarrow> 'j webview \<Rightarrow> 'j webview" where
  "setTimeout cb ms w = w\<lparr>timers := timers w @ [(now w + ms, cb)]\<rparr>"

definition claimTask :: "nat \<Rightarrow> 'j webview \<Rightarrow> 'j webview" where
  "claimTask taskId w =
     (if isClaimingTask w then w
      else setTimeout Reset_isClaimingTask 3000
             ((disable (Claim_button taskId) (w\<lparr>isClaimingTask := True\<rparr>))
                \<lparr>posted := posted w @ [Claim_task taskId]\<rparr>))"

definition claimTaskFromProject :: "nat \<Rightarrow> 'j webview \<Rightarrow> 'j webview" where
  "claimTaskFromProject projectId w =
     (if isClaimingTask w then w
      else setTimeout Reset_isClaimingTask 3000
             ((disable (Claim_project_button projectId) (w\<lparr>isClaimingTask := True\<rparr>))
                \<lparr>posted := posted w @ [Claim_task_from_project projectId]\<rparr>))"

text \<open>\<^verbatim>\<open>submitGenericAnnotation\<close>; the built-in \<^verbatim>\<open>JSON.parse\<close> is a parameter, \<open>None\<close>
  when it throws.\<close>

definition submitGenericAnnotation ::
  "(jstext \<Rightarrow> 'j option) \<Rightarrow> nat \<Rightarrow> 'j webview \<Rightarrow> 'j webview" where
  "submitGenericAnnotation JSON_parse assignmentId w =
     (let annotationText = (case textarea w assignmentId of Some v \<Rightarrow> trim v | None \<Rightarrow> []) in
      if annotationText = []
      then (if Submit_generic_button assignmentId \<in> set (buttons w)
            then setTimeout (Remove_error_div (divs_created w)) 5000
                   (w\<lparr>error_divs :=
                        error_divs w @ [(divs_created w, ''Please provide an annotation.'')],
                      divs_created := divs_created w + 1\<rparr>)
            else w)
      else (let result = (case JSON_parse annotationText of
                            Some v \<Rightarrow> Parsed v
                          | None \<Rightarrow> Annotation_object annotationText)
            in w\<lparr>posted := posted w @ [Submit_assignment assignmentId result]\<rparr>))"

text \<open>
  What can happen to the script: a click handler calls one of the three functions, the
  user edits a textarea, time passes, or a timer that is due fires. A due timer may fire
  late, and other events may come before it.
\<close>

datatype event =
    Call_claimTask nat
  | Call_claimTaskFromProject nat
  | Call_submitGenericAnnotation nat
  | Edit_textarea nat jstext
  | Advance nat
  | Fire nat

fun run_callback :: "timer_callback \<Rightarrow> 'j webview \<Rightarrow> 'j webview" where
  "run_callback Reset_isClaimingTask w = w\<lparr>isClaimingTask := False\<rparr>"
| "run_callback (Remove_error_div i) w =
     w\<lparr>error_divs := filter (\<lambda>d. fst d \<noteq> i) (error_divs w)\<rparr>"

fun step :: "(jstext \<Rightarrow> 'j option) \<Rightarrow> event \<Rightarrow> 'j webview \<Rightarrow> 'j webview" where
  "step jp (Call_claimTask t) w = claimTask t w"
| "step jp (Call_claimTaskFromProject p) w = claimTaskFromProject p w"
| "step jp (Call_submitGenericAnnotation a) w = submitGenericAnnotation jp a w"
| "step jp (Edit_textarea a v) w = w\<lparr>textarea := (textarea w)(a \<mapsto> v)\<rparr>"
| "step jp (Advance d) w = w\<lparr>now := now w + d\<rparr>"
| "step jp (Fire i) w =
     (if i < length (timers w) \<and> fst (timers w ! i) \<le> now w
      then run_callback (snd (timers w ! i))
             (w\<lparr>timers := take i (timers w) @ drop (Suc i) (timers w)\<rparr>)
      else w)"

fun run :: "(jstext \<Rightarrow> 'j option) \<Rightarrow> event list \<Rightarrow> 'j webview \<Rightarrow> 'j webview" where
  "run jp [] w = w"
| "run jp (e # es) w = run jp es (step jp e w)"

text \<open>The time that passes during a run of events.\<close>

fun elapsed :: "event list \<Rightarrow> nat" where
  "elapsed [] = 0"
| "elapsed (Advance d # es) = d + elapsed es"
| "elapsed (e # es) = elapsed es"

text \<open>The flag stays set from the start of a run to its end.\<close>

fun flag_held :: "(jstext \<Rightarrow> 'j option) \<Rightarrow> event list \<Rightarrow> 'j webview \<Rightarrow> bool" where
  "flag_held jp [] w = isClaimingTask w"
| "flag_held jp (e # es) w = (isClaimingTask w \<and> flag_held jp es (step jp e w))"

definition is_claim :: "'j message \<Rightarrow> bool" where
  "is_claim m = (case m of Claim_task t \<Rightarrow> True | Claim_task_from_project p \<Rightarrow> True
                 | Submit_assignment a r \<Rightarrow> False)"

text \<open>A state in which no claim is pending: the flag is clear and no timer that would
  clear it is waiting. The script starts in such a state.\<close>

definition idle :: "'j webview \<Rightarrow> bool" where
  "idle w = (\<not> isClaimingTask w \<and> Reset_isClaimingTask \<notin> snd ` set (timers w))"

text \<open>Every pending timer that would clear the flag is due later than time \<open>t\<close>.\<close>

definition resets_after :: "nat \<Rightarrow> 'j webview \<Rightarrow> bool" where
  "resets_after t w = (\<forall>x \<in> set (timers w). snd x = Reset_isClaimingTask \<longrightarrow> t < fst x)"

text \<open>The flag is set exactly while one timer that clears it is pending.\<close>

definition claim_inv :: "'j webview \<Rightarrow> bool" where
  "claim_inv w =
     (length (filter (\<lambda>x. snd x = Reset_isClaimingTask) (timers w)) =
        (if isClaimingTask w then 1 else 0))"

section \<open>Claiming a task from the extension host\<close>

text \<open>
  \<^verbatim>\<open>TaskPanelProvider.handleClaimTask\<close>. \<^verbatim>\<open>TaskManager\<close> and the refresh of the panel
  are calls into code outside the handler; what they answer is the environment. Of the
  assignment a claim resolves with, the handler reads whether it is there and its id.
\<close>

datatype notification = ShowInformationMessage string | ShowErrorMessage string

record claim_env =
  taskManager_claimTask :: "nat \<Rightarrow> nat option option outcome"
  refresh_in_try :: "unit outcome"
  refresh_in_catch :: "unit outcome"

definition plain_error :: "string \<Rightarrow> js_error" where
  "plain_error m =
     \<lparr>message = m, response_status = None, response_error = None, response_detail = None\<rparr>"

definition task_claimed_message :: string where
  "task_claimed_message =
     [CHR 0xE2, CHR 0x9C, CHR 0x85] @ '' Task claimed! Look for the green '' @ [CHR 0x22]
       @ ''My Assignments'' @ [CHR 0x22] @ '' section above. You can cancel anytime.''"

definition claim_try :: "claim_env \<Rightarrow> nat \<Rightarrow> js_error + unit" where
  "claim_try env taskId =
     (case taskManager_claimTask env taskId of
        Rejected err \<Rightarrow> Inl err
      | Resolved assignment \<Rightarrow>
          (case assignment of
             None \<Rightarrow> Inl (plain_error ''Assignment was not created properly'')
           | Some None \<Rightarrow> Inl (plain_error ''Assignment was not created properly'')
           | Some (Some i) \<Rightarrow>
               if i = 0 then Inl (plain_error ''Assignment was not created properly'')
               else (case refresh_in_try env of
                       Rejected err \<Rightarrow> Inl err
                     | Resolved _ \<Rightarrow> Inr ())))"

definition claim_catch_message :: "js_error \<Rightarrow> string" where
  "claim_catch_message error =
     (if response_status error = Some 400
        then ''This task is no longer available. Please refresh and try another task.''
      else if response_status error = Some 403
        then ''You do not have permission to claim this task.''
      else if response_status error = Some 404
        then ''Task not found. It may have been claimed by another user.''
      else ''Failed to claim task: '' @ message error)"

text \<open>The notifications the handler shows, and how its promise settles.\<close>

definition handleClaimTask :: "claim_env \<Rightarrow> nat \<Rightarrow> notification list \<times> unit outcome" where
  "handleClaimTask env taskId =
     (case claim_try env taskId of
        Inr _ \<Rightarrow> ([ShowInformationMessage task_claimed_message], Resolved ())
      | Inl error \<Rightarrow> ([ShowErrorMessage (claim_catch_message error)], refresh_in_catch env))"

section \<open>Login from the extension\<close>

text \<open>
  \<^verbatim>\<open>StorageManager\<close> wraps the extension's global state, a map from keys to values.
  Updating a key with \<^verbatim>\<open>undefined\<close> removes it; \<^verbatim>\<open>has\<close> is false for a key that is
  absent or holds \<^verbatim>\<open>null\<close>.
\<close>

record user =
  user_id :: nat
  username :: string
  user_type :: string

datatype stored = Null | Token string | User user

type_synonym storage = "string \<Rightarrow> stored option"

definition storage_set :: "storage \<Rightarrow> string \<Rightarrow> stored option \<Rightarrow> storage" where
  "storage_set st key v = st(key := v)"

definition storage_has :: "storage \<Rightarrow> string \<Rightarrow> bool" where
  "storage_has st key = (case st key of None \<Rightarrow> False | Some Null \<Rightarrow> False | Some _ \<Rightarrow> True)"

definition isAuthenticated :: "storage \<Rightarrow> bool" where
  "isAuthenticated st = storage_has st ''authToken''"

text \<open>
  The body of a login response, \<^verbatim>\<open>const { token, user } = response.data\<close>: either field
  may be missing.
\<close>

record login_data =
  data_token :: "string option"
  data_user :: "user option"

definition only_annotators :: js_error where
  "only_annotators = plain_error
     ''Only annotators can use this extension. Please use the web interface for researchers.''"

definition type_error :: js_error where
  "type_error = plain_error
     (''Cannot read properties of undefined (reading '' @ [CHR 0x27] @ ''user_type''
        @ [CHR 0x27] @ '')'')"

text \<open>The \<^verbatim>\<open>catch\<close> block of \<^verbatim>\<open>login\<close>: the error that leaves the method.\<close>

definition login_catch :: "js_error \<Rightarrow> js_error" where
  "login_catch error =
     (case response_error error of
        Some m \<Rightarrow> if m \<noteq> [] then plain_error m
                  else (case response_detail error of
                          Some d \<Rightarrow> if d \<noteq> [] then plain_error d else error
                        | None \<Rightarrow> error)
      | None \<Rightarrow> (case response_detail error of
                   Some d \<Rightarrow> if d \<noteq> [] then plain_error d else error
                 | None \<Rightarrow> error))"

text \<open>
  \<^verbatim>\<open>AuthManager.login\<close>, given the answer to the POST of the credentials: the error
  thrown or the user returned, and the storage afterwards.
\<close>

definition login :: "storage \<Rightarrow> login_data outcome \<Rightarrow> (js_error + user) \<times> storage" where
  "login st response =
     (case response of
        Rejected err \<Rightarrow> (Inl (login_catch err), st)
      | Resolved d \<Rightarrow>
          (case data_user d of
             None \<Rightarrow> (Inl (login_catch type_error), st)
           | Some u \<Rightarrow>
               if user_type u \<noteq> ''annotator'' then (Inl (login_catch only_annotators), st)
               else (let st1 = storage_set st ''authToken'' (map_option Token (data_token d));
                         st2 = storage_set st1 ''user'' (Some (User u))
                     in (Inr u, st2))))"


section \<open>The binary value of a Number\<close>











text \<open>A rational is dyadic when it is an integer over a power of two. A price in
  hundredths is a whole number of minor units.\<close>

definition dyadic :: "rat \<Rightarrow> bool" where
  "dyadic v = (\<exists>(m::int) (j::nat). v = of_int m / 2 ^ j)"





section \<open>Rendering an assignment card (webview)\<close>

text \<open>
  The fields of an assignment arrive as JSON, so a field that the script treats as a
  string may hold any value. Of a value the script uses its truthiness (\<^verbatim>\<open>||\<close>, \<^verbatim>\<open>&&\<close>,
  \<^verbatim>\<open>?:\<close>), its identity with a string literal (\<^verbatim>\<open>===\<close>, \<^verbatim>\<open>includes\<close>) and its conversion to
  a string (\<^verbatim>\<open>String(v)\<close>, a template literal, the argument of \<^verbatim>\<open>parseFloat\<close>). A value is
  a string; or another primitive (\<^verbatim>\<open>undefined\<close>, \<^verbatim>\<open>null\<close>, a boolean, a number), given by
  its truthiness and its conversion; or an object, which is truthy and whose conversion
  may throw a \<^verbatim>\<open>TypeError\<close>, as it does for the object that the JSON text
  \<^verbatim>\<open>{"toString": 1}\<close> denotes. \<open>None\<close> is a conversion that throws.
\<close>

datatype jsval = JStr jstext | JPrim bool jstext | JObj "jstext option"

definition js_undefined :: jsval where
  "js_undefined = JPrim False (units ''undefined'')"

definition js_null :: jsval where
  "js_null = JPrim False (units ''null'')"

fun truthy :: "jsval \<Rightarrow> bool" where
  "truthy (JStr s) = (s \<noteq> [])"
| "truthy (JPrim t p) = t"
| "truthy (JObj p) = True"

fun js_String :: "jsval \<Rightarrow> jstext option" where
  "js_String (JStr s) = Some s"
| "js_String (JPrim t p) = Some p"
| "js_String (JObj p) = p"

text \<open>\<^verbatim>\<open>a || b\<close>\<close>

definition or_else :: "jsval \<Rightarrow> jsval \<Rightarrow> jsval" where
  "or_else a b = (if truthy a then a else b)"

text \<open>
  \<^verbatim>\<open>s.replace(/c/g, by)\<close> for a single code unit \<open>c\<close>, and \<^verbatim>\<open>escapeHtml\<close>: the five
  replacements in the order of the source, after \<^verbatim>\<open>String(unsafe)\<close> for a value that is
  not a string.
\<close>

definition replace_all :: "nat \<Rightarrow> jstext \<Rightarrow> jstext \<Rightarrow> jstext" where
  "replace_all c by s = concat (map (\<lambda>x. if x = c then by else [x]) s)"

definition escapeHtml_text :: "jstext \<Rightarrow> jstext" where
  "escapeHtml_text unsafe =
     replace_all 39 (units ''&#039;'')
       (replace_all 34 (units ''&quot;'')
         (replace_all 62 (units ''&gt;'')
           (replace_all 60 (units ''&lt;'')
             (replace_all 38 (units ''&amp;'') unsafe))))"

definition escapeHtml :: "jsval \<Rightarrow> jstext option" where
  "escapeHtml unsafe =
     (case (case unsafe of JStr s \<Rightarrow> Some s | _ \<Rightarrow> js_String unsafe) of
        None \<Rightarrow> None
      | Some s \<Rightarrow> Some (escapeHtml_text s))"

text \<open>
  The task object of an assignment: \<^verbatim>\<open>task.data\<close> with the six fields the forms read,
  \<^verbatim>\<open>task.label_config\<close> and \<^verbatim>\<open>task.price_per_task\<close>. An absent object is \<open>None\<close>; the
  script then reads the fields of \<^verbatim>\<open>{}\<close>, which are all \<^verbatim>\<open>undefined\<close>. The id of an
  assignment is a number.
\<close>

record task_fields =
  data_image :: jsval
  data_img :: jsval
  data_url :: jsval
  data_text :: jsval
  data_source :: jsval
  data_mt :: jsval

record card_task =
  wv_data :: "task_fields option"
  wv_label_config :: jsval
  wv_price_per_task :: jsval

record wv_assignment =
  wv_id :: nat
  wv_status :: jsval
  wv_feedback :: jsval
  wv_task_data :: "card_task option"
  wv_task :: "card_task option"

definition empty_fields :: task_fields where
  "empty_fields =
     \<lparr>data_image = js_undefined, data_img = js_undefined, data_url = js_undefined,
      data_text = js_undefined, data_source = js_undefined, data_mt = js_undefined\<rparr>"

definition empty_task :: card_task where
  "empty_task =
     \<lparr>wv_data = None, wv_label_config = js_undefined, wv_price_per_task = js_undefined\<rparr>"

text \<open>\<^verbatim>\<open>assignment.task_data || assignment.task || {}\<close> and \<^verbatim>\<open>task.data || {}\<close>\<close>

definition card_task_of :: "wv_assignment \<Rightarrow> card_task" where
  "card_task_of assignment =
     (case wv_task_data assignment of
        Some t \<Rightarrow> t
      | None \<Rightarrow> (case wv_task assignment of Some t \<Rightarrow> t | None \<Rightarrow> empty_task))"

definition taskData_of :: "card_task \<Rightarrow> task_fields" where
  "taskData_of task = (case wv_data task of Some d \<Rightarrow> d | None \<Rightarrow> empty_fields)"

text \<open>
  What \<^verbatim>\<open>parseLabelConfig\<close> returns: the controls it found in the label configuration.
  Every string of it is a string (a match of a regular expression or a literal default),
  the header is a string or \<^verbatim>\<open>null\<close>, and \<^verbatim>\<open>maxRating\<close> counts the stars that the loop
  \<^verbatim>\<open>for (let i = 1; i <= rating.maxRating; i++)\<close> gives. The parser is a parameter of the
  model: its body is inside \<^verbatim>\<open>try\<close> and \<^verbatim>\<open>catch\<close> and its loops advance, so it returns a
  control set for every argument, and the properties below hold for every such function.
\<close>

record choice =
  ch_name :: jstext
  ch_options :: "jstext list"
  ch_multiple :: bool

record label =
  lb_name :: jstext
  lb_options :: "jstext list"

record rating =
  rt_name :: jstext
  rt_maxRating :: nat
  rt_required :: bool

record textArea =
  ta_name :: jstext
  ta_placeholder :: jstext
  ta_required :: bool

record control_set =
  choices :: "choice list"
  textAreas :: "textArea list"
  ratings :: "rating list"
  labels :: "label list"
  header :: "jstext option"
  hasImage :: bool
  hasText :: bool
  hasSourceMT :: bool

text \<open>
  The markup is built from templates. The model keeps the slots of a template as
  fragments, in the order of the template, so that "the card holds a cancel button" is
  membership of a fragment. A fragment records what is interpolated into it; the
  characters of the template itself are not modelled. The badge holds the status twice:
  converted to a string and unescaped, as the class attribute gets it, and escaped, as
  the text of the badge. The blocks of the controls hold the name unescaped, as the
  \<^verbatim>\<open>name\<close> or \<^verbatim>\<open>id\<close> attribute gets it with the id of the assignment, and the escaped
  strings.
\<close>

datatype fragment =
    Card_open bool
  | Toggle_header nat
  | Status_icon string
  | Badge jstext jstext
  | Price jstext
  | Action_button jstext
  | Cancel_button nat
  | Form_open
  | Heading jstext
  | Source_mt jstext jstext
  | Image jstext
  | Text_block jstext
  | Choices_block bool jstext nat jstext "jstext list"
  | Labels_block jstext nat jstext "jstext list"
  | Rating_block jstext nat jstext bool nat
  | TextArea_block jstext nat jstext jstext bool
  | Generic_textarea nat
  | Submit_button string nat
  | Error_note string
  | Form_close

text \<open>
  \<^verbatim>\<open>renderGenericAnnotationForm\<close>: \<open>None\<close> when \<^verbatim>\<open>escapeHtml(imageUrl)\<close> throws.
\<close>

definition renderGenericAnnotationForm ::
  "wv_assignment \<Rightarrow> task_fields \<Rightarrow> fragment list option" where
  "renderGenericAnnotationForm assignment taskData =
     (let imageUrl = or_else (or_else (data_image taskData) (data_img taskData)) (data_url taskData)
      in case (if truthy imageUrl
               then (case escapeHtml imageUrl of None \<Rightarrow> None | Some u \<Rightarrow> Some [Image u])
               else Some []) of
           None \<Rightarrow> None
         | Some imageContent \<Rightarrow>
             Some ([Form_open, Heading (units ''Complete Annotation'')] @ imageContent
                   @ [Generic_textarea (wv_id assignment),
                      Submit_button ''submit-generic-annotation'' (wv_id assignment),
                      Form_close]))"

text \<open>
  \<^verbatim>\<open>renderDynamicForm\<close>: the header, the source and the translation of an MT evaluation,
  the image, the text, then the choices, labels, ratings and text areas, and the submit
  button. \<open>None\<close> when one of the calls of \<^verbatim>\<open>escapeHtml\<close> on the task data throws.
\<close>

definition renderDynamicForm ::
  "wv_assignment \<Rightarrow> task_fields \<Rightarrow> control_set \<Rightarrow> fragment list option" where
  "renderDynamicForm assignment taskData controls =
     (let headerContent =
            (case header controls of
               None \<Rightarrow> []
             | Some h \<Rightarrow> if h \<noteq> [] then [Heading (escapeHtml_text h)] else []);
          sourceMT =
            (if hasSourceMT controls \<and> truthy (data_source taskData) \<and> truthy (data_mt taskData)
             then (case escapeHtml (data_source taskData) of
                     None \<Rightarrow> None
                   | Some s \<Rightarrow>
                      (case escapeHtml (data_mt taskData) of
                         None \<Rightarrow> None
                       | Some m \<Rightarrow> Some [Heading (units ''MT Evaluation''), Source_mt s m]))
             else Some []);
          imageUrl = or_else (or_else (data_image taskData) (data_img taskData)) (data_url taskData);
          imageContent =
            (if hasImage controls \<and> truthy imageUrl
             then (case escapeHtml imageUrl of None \<Rightarrow> None | Some u \<Rightarrow> Some [Image u])
             else Some []);
          textContent =
            (if hasText controls \<and> truthy (data_text taskData)
             then (case escapeHtml (data_text taskData) of
                     None \<Rightarrow> None
                   | Some t \<Rightarrow> Some [Text_block t])
             else Some []);
          choicesContent =
            map (\<lambda>c. Choices_block (ch_multiple c) (ch_name c) (wv_id assignment)
                       (escapeHtml_text (ch_name c)) (map escapeHtml_text (ch_options c)))
              (choices controls);
          labelsContent =
            map (\<lambda>l. Labels_block (lb_name l) (wv_id assignment)
                       (escapeHtml_text (lb_name l)) (map escapeHtml_text (lb_options l)))
              (labels controls);
          ratingsContent =
            map (\<lambda>r. Rating_block (rt_name r) (wv_id assignment)
                       (escapeHtml_text (rt_name r)) (rt_required r) (rt_maxRating r))
              (ratings controls);
          textAreasContent =
            map (\<lambda>t. TextArea_block (ta_name t) (wv_id assignment)
                       (escapeHtml_text (ta_name t)) (escapeHtml_text (ta_placeholder t))
                       (ta_required t))
              (textAreas controls)
      in case sourceMT of
           None \<Rightarrow> None
         | Some sourceMT \<Rightarrow>
            (case imageContent of
               None \<Rightarrow> None
             | Some imageContent \<Rightarrow>
                (case textContent of
                   None \<Rightarrow> None
                 | Some textContent \<Rightarrow>
                     Some ([Form_open]
                           @ (if \<not> hasSourceMT controls
                              then [Heading (units ''Complete Annotation'')] else [])
                           @ headerContent @ sourceMT @ imageContent @ textContent
                           @ choicesContent @ labelsContent @ ratingsContent @ textAreasContent
                           @ [Submit_button ''submit-dynamic'' (wv_id assignment), Form_close]))))"

text \<open>
  \<^verbatim>\<open>renderAnnotationForm\<close>: the generic form when there is no label configuration or it
  has no control, the dynamic form otherwise; and, when building the form throws, the
  markup of the \<^verbatim>\<open>catch\<close> branch: a note and a cancel button.
\<close>

definition renderAnnotationForm ::
  "(jsval \<Rightarrow> control_set) \<Rightarrow> wv_assignment \<Rightarrow> fragment list" where
  "renderAnnotationForm parseLabelConfig assignment =
     (let task = card_task_of assignment;
          taskData = taskData_of task;
          labelConfig = or_else (wv_label_config task) js_null;
          controls = parseLabelConfig labelConfig
      in case (if \<not> truthy labelConfig
                  \<or> (choices controls = [] \<and> textAreas controls = []
                      \<and> ratings controls = [] \<and> labels controls = [])
               then renderGenericAnnotationForm assignment taskData
               else renderDynamicForm assignment taskData controls) of
           Some form \<Rightarrow> form
         | None \<Rightarrow>
             [Form_open, Error_note ''Error loading annotation form. Please try refreshing.'',
              Cancel_button (wv_id assignment), Form_close])"

text \<open>
  \<^verbatim>\<open>renderAssignmentCard\<close>. \<open>format_price s\<close> is \<^verbatim>\<open>parseFloat(s).toFixed(2)\<close>. The card is
  \<open>None\<close> when the function throws: when the status, the feedback of a rejected
  assignment or a truthy price cannot be converted to a string.
\<close>

definition renderAssignmentCard ::
  "(jsval \<Rightarrow> control_set) \<Rightarrow> (jstext \<Rightarrow> jstext) \<Rightarrow> wv_assignment \<Rightarrow> fragment list option" where
  "renderAssignmentCard parseLabelConfig format_price assignment =
     (let task = card_task_of assignment;
          status = wv_status assignment;
          mediaHtml = [];
          cancelButton =
            (if status \<in> set [JStr (units ''assigned''), JStr (units ''accepted''),
                               JStr (units ''in_progress'')]
             then [Cancel_button (wv_id assignment)] else []);
          isInProgress =
            (status = JStr (units ''assigned'') \<or> status = JStr (units ''accepted'')
             \<or> status = JStr (units ''in_progress''));
          annotationForm =
            (if isInProgress then renderAnnotationForm parseLabelConfig assignment else []);
          actionButton =
            (if isInProgress then Some []
             else if status = JStr (units ''submitted'') then Some []
             else if status = JStr (units ''approved'') then Some []
             else if status = JStr (units ''rejected'')
               then (case escapeHtml (or_else (wv_feedback assignment)
                                        (JStr (units ''No feedback provided''))) of
                       None \<Rightarrow> None
                     | Some feedback \<Rightarrow> Some [Action_button feedback])
             else Some []);
          pricePerTask =
            (if truthy (wv_price_per_task task)
             then (case js_String (wv_price_per_task task) of
                     None \<Rightarrow> None
                   | Some p \<Rightarrow> Some (format_price p))
             else Some (units ''0.00''));
          badge =
            (case js_String status of
               None \<Rightarrow> None
             | Some raw \<Rightarrow>
                (case escapeHtml status of
                   None \<Rightarrow> None
                 | Some escaped \<Rightarrow> Some (Badge raw escaped)))
      in case actionButton of
           None \<Rightarrow> None
         | Some actionButton \<Rightarrow>
            (case pricePerTask of
               None \<Rightarrow> None
             | Some pricePerTask \<Rightarrow>
                (case badge of
                   None \<Rightarrow> None
                 | Some badge \<Rightarrow>
                     Some (if isInProgress
                           then [Card_open True, Toggle_header (wv_id assignment), badge,
                                 Price pricePerTask]
                                @ mediaHtml @ annotationForm @ cancelButton
                           else [Card_open False,
                                 Status_icon
                                   (if status = JStr (units ''approved'') then ''approved''
                                    else if status = JStr (units ''submitted'') then ''submitted''
                                    else ''none''),
                                 badge, Price pricePerTask]
                                @ (if actionButton \<noteq> [] then actionButton else [])
                                @ mediaHtml
                                @ (if cancelButton \<noteq> [] then cancelButton else [])))))"


definition printable :: "jsval \<Rightarrow> bool" where
  "printable v = (js_String v \<noteq> None)"

section \<open>Example inputs\<close>

text \<open>
  A page with two pending assignments, both selected, of two projects priced at 20000
  and 2.50. The built-ins of the environment are given on the values these examples
  reach: \<^verbatim>\<open>parseFloat("20000")\<close>, \<^verbatim>\<open>parseFloat("2.50")\<close>, \<^verbatim>\<open>0 + 20000\<close>,
  \<^verbatim>\<open>20000 + 2.5\<close> and \<^verbatim>\<open>(20002.5).toFixed(2)\<close>.
\<close>

definition example_state :: app_state where
  "example_state =
     \<lparr>selectedAssignments = [11, 12],
      pendingAssignments =
        [\<lparr>assignment_id = 11, task_data = Some \<lparr>task_project = Some 1\<rparr>, assignment_task = None\<rparr>,
         \<lparr>assignment_id = 12, task_data = None, assignment_task = Some \<lparr>task_project = Some 2\<rparr>\<rparr>],
      projects =
        [\<lparr>project_id = 1, price_per_task = ''20000''\<rparr>,
         \<lparr>project_id = 2, price_per_task = ''2.50''\<rparr>]\<rparr>"

definition example_env :: page_env where
  "example_env =
     \<lparr>parseFloat = (\<lambda>s. if s = ''20000'' then Dec False [2] 5
                         else if s = ''2.50'' then Dec False [2, 5] 1 else NaN),
      js_plus = (\<lambda>a b. if a = Zero False then b
                        else if a = Dec False [2] 5 \<and> b = Dec False [2, 5] 1
                          then Dec False [2, 0, 0, 0, 2, 5] 5
                        else NaN),
      toFixed2 = (\<lambda>x. if x = Dec False [2, 0, 0, 0, 2, 5] 5 then ''20002.50'' else ''NaN''),
      window_confirm = (\<lambda>m. True),
      approve = (\<lambda>i a. Resolved ())\<rparr>"

text \<open>The same page when the backend refuses the payment of assignment 12.\<close>

definition insufficient_funds :: js_error where
  "insufficient_funds =
     \<lparr>message = ''Request failed with status code 402'', response_status = Some 402,
      response_error = Some ''Insufficient funds in platform wallet'', response_detail = None\<rparr>"

definition failing_env :: page_env where
  "failing_env =
     example_env\<lparr>approve := (\<lambda>i a. if i = 12 then Rejected insufficient_funds else Resolved ())\<rparr>"

text \<open>A webview with one generic annotation form, whose textarea holds a space, a tab,
  a line feed and an em space.\<close>

definition blank_form :: "nat webview" where
  "blank_form =
     \<lparr>isClaimingTask = False, posted = [], timers = [], now = 0,
      textarea = (\<lambda>a. if a = 2 then Some [32, 9, 10, 8195] else None),
      buttons = [Submit_generic_button 2, Claim_button 1], disabled = [], error_divs = [],
      divs_created = 0\<rparr>"

text \<open>A claim request that the backend answers with status 400.\<close>

definition bad_request :: js_error where
  "bad_request =
     \<lparr>message = ''Request failed with status code 400'', response_status = Some 400,
      response_error = Some ''Task is not available'', response_detail = None\<rparr>"

definition lost_race_env :: claim_env where
  "lost_race_env =
     \<lparr>taskManager_claimTask = (\<lambda>t. Rejected bad_request),
      refresh_in_try = Resolved (), refresh_in_catch = Resolved ()\<rparr>"

text \<open>A login answered with a researcher's account.\<close>

definition researcher_login :: login_data where
  "researcher_login =
     \<lparr>data_token = Some ''9f3c'',
      data_user = Some \<lparr>user_id = 4, username = ''rita'', user_type = ''researcher''\<rparr>\<rparr>"

text \<open>A \<^verbatim>\<open>JSON.parse\<close> that always throws, and a run of events that takes 2999 ms.\<close>

definition no_json :: "jstext \<Rightarrow> nat option" where
  "no_json s = None"

definition example_events :: "event list" where
  "example_events =
     [Call_claimTask 5, Advance 2999, Call_claimTaskFromProject 3,
      Call_submitGenericAnnotation 2, Fire 0]"












section \<open>Properties\<close>

subsection \<open>Reading the effects of a handler\<close>

lemma approve_requests_simps:
  "approve_requests [] = []"
  "approve_requests (Approve_request i a # es) = (i, a) # approve_requests es"
  "approve_requests (Alert m # es) = approve_requests es"
  "approve_requests (Confirm m # es) = approve_requests es"
  "approve_requests (SetLoading b # es) = approve_requests es"
  "approve_requests (SetError m # es) = approve_requests es"
  "approve_requests (Console_error i err # es) = approve_requests es"
  "approve_requests (LoadPendingAssignments # es) = approve_requests es"
  "approve_requests (es @ fs) = approve_requests es @ approve_requests fs"
  by (simp_all add: approve_requests_def)

lemma shown_simps:
  "shown [] = []"
  "shown (Alert m # es) = m # shown es"
  "shown (Confirm m # es) = m # shown es"
  "shown (SetError m # es) = m # shown es"
  "shown (SetLoading b # es) = shown es"
  "shown (Approve_request i a # es) = shown es"
  "shown (Console_error i err # es) = shown es"
  "shown (LoadPendingAssignments # es) = shown es"
  "shown (es @ fs) = shown es @ shown fs"
  by (simp_all add: shown_def)


subsection \<open>Wallet addresses: format\<close>

lemma units_0x: "units ''0x'' = [48, 120]"
  by (simp add: units_def)

lemma validateWalletAddress_format:
  "validateWalletAddress address = None \<longleftrightarrow>
     (\<exists>hs. address = units ''0x'' @ hs \<and> length hs = 40 \<and> (\<forall>c \<in> set hs. is_hex c))"
proof
  assume "validateWalletAddress address = None"
  then have r: "address_regex address"
    by (auto simp: validateWalletAddress_def Let_def split: if_splits)
  then have "take 2 address = units ''0x''"
    by (simp add: address_regex_def startsWith_def units_0x numeral_2_eq_2)
  then have "address = units ''0x'' @ drop 2 address"
    by (metis append_take_drop_id)
  with r show "\<exists>hs. address = units ''0x'' @ hs \<and> length hs = 40 \<and> (\<forall>c \<in> set hs. is_hex c)"
    by (auto simp: address_regex_def list_all_iff)
next
  assume "\<exists>hs. address = units ''0x'' @ hs \<and> length hs = 40 \<and> (\<forall>c \<in> set hs. is_hex c)"
  then show "validateWalletAddress address = None"
    by (auto simp: validateWalletAddress_def address_regex_def startsWith_def list_all_iff
        Let_def units_0x)
qed

lemma validateWalletAddress_web_format:
  "validateWalletAddress_web address = None \<longleftrightarrow>
     (\<exists>hs. address = units ''0x'' @ hs \<and> length hs = 40 \<and> (\<forall>c \<in> set hs. is_hex c))"
proof
  assume "validateWalletAddress_web address = None"
  then have r: "address_regex address"
    by (auto simp: validateWalletAddress_web_def split: if_splits)
  then have "take 2 address = units ''0x''"
    by (simp add: address_regex_def startsWith_def units_0x numeral_2_eq_2)
  then have "address = units ''0x'' @ drop 2 address"
    by (metis append_take_drop_id)
  with r show "\<exists>hs. address = units ''0x'' @ hs \<and> length hs = 40 \<and> (\<forall>c \<in> set hs. is_hex c)"
    by (auto simp: address_regex_def list_all_iff)
next
  assume "\<exists>hs. address = units ''0x'' @ hs \<and> length hs = 40 \<and> (\<forall>c \<in> set hs. is_hex c)"
  then show "validateWalletAddress_web address = None"
    by (auto simp: validateWalletAddress_web_def address_regex_def startsWith_def list_all_iff
        units_0x)
qed

subsection \<open>Wallet addresses: checksum\<close>

text \<open>
  Claim C4. EIP-55 assigns each 20-byte address exactly one mixed-case spelling, so of
  two distinct mixed-case spellings of the same hexadecimal digits at most one carries
  a valid checksum. Both validators accept both spellings below: the first is the
  checksummed form given in EIP-55, the second differs from it in the case of one
  letter. No checksum is computed before acceptance.
\<close>

theorem validateWalletAddress_accepts_two_spellings:
  "validateWalletAddress (units ''0x5aAeb6053F3E94C9b9A09f33669435E7Ef1BeAed'') = None
   \<and> validateWalletAddress (units ''0x5AAeb6053F3E94C9b9A09f33669435E7Ef1BeAed'') = None
   \<and> validateWalletAddress_web (units ''0x5aAeb6053F3E94C9b9A09f33669435E7Ef1BeAed'') = None
   \<and> validateWalletAddress_web (units ''0x5AAeb6053F3E94C9b9A09f33669435E7Ef1BeAed'') = None
   \<and> mixed_case (units ''0x5aAeb6053F3E94C9b9A09f33669435E7Ef1BeAed'')
   \<and> mixed_case (units ''0x5AAeb6053F3E94C9b9A09f33669435E7Ef1BeAed'')
   \<and> toLowerCase (units ''0x5aAeb6053F3E94C9b9A09f33669435E7Ef1BeAed'')
       = toLowerCase (units ''0x5AAeb6053F3E94C9b9A09f33669435E7Ef1BeAed'')
   \<and> units ''0x5aAeb6053F3E94C9b9A09f33669435E7Ef1BeAed''
       \<noteq> units ''0x5AAeb6053F3E94C9b9A09f33669435E7Ef1BeAed''"
  by (simp add: validateWalletAddress_def validateWalletAddress_web_def address_regex_def
      startsWith_def is_hex_def has_upper_hex_def has_lower_hex_def mixed_case_def
      toLowerCase_def toLowerCase_unit_def units_def)


subsection \<open>Payment amounts: what the validator accepts\<close>

lemma split_on_nonempty: "split_on sep s \<noteq> []"
  by (induction s) (auto split: list.splits)

lemma split_on_no_sep: "sep \<notin> set s \<Longrightarrow> split_on sep s = [s]"
  by (induction s) auto

lemma split_on_first: "sep \<notin> set s \<Longrightarrow> split_on sep (s @ sep # t) = s # split_on sep t"
  by (induction s) auto

lemma digit_char_not_dot: "d < 10 \<Longrightarrow> digit_char d \<noteq> CHR ''.''"
proof -
  assume "d < 10"
  then have "d \<in> set [0..<10]" by simp
  then have "d \<in> {0, 1, 2, 3, 4, 5, 6, 7, 8, 9}"
    by (simp add: upt_rec numeral_nat)
  then show ?thesis by (auto simp: digit_char_def)
qed

lemma digits_no_dot: "list_all (\<lambda>d. d < 10) ds \<Longrightarrow> CHR ''.'' \<notin> set (map digit_char ds)"
  by (induction ds) (auto dest: digit_char_not_dot)

lemma nat_digits_lt10: "list_all (\<lambda>d. d < 10) (nat_digits m)"
proof (induction m rule: nat_digits.induct)
  case (1 m)
  show ?case
  proof (cases "m < 10")
    case True
    then show ?thesis by (simp add: nat_digits.simps [of m])
  next
    case False
    with 1 show ?thesis by (simp add: nat_digits.simps [of m])
  qed
qed

lemma nat_digits_nonempty: "nat_digits m \<noteq> []"
  by (simp add: nat_digits.simps [of m])

lemma nat_toString_no_dot: "CHR ''.'' \<notin> set (nat_toString m)"
  unfolding nat_toString_def by (rule digits_no_dot) (rule nat_digits_lt10)

lemma nat_toString_length: "0 < length (nat_toString m)"
  by (simp add: nat_toString_def nat_digits_nonempty)


lemma after_dot:
  assumes "CHR ''.'' \<notin> set s" and "CHR ''.'' \<notin> set t"
  shows "drop 1 (split_on (CHR ''.'') (s @ ''.'' @ t)) = [t]"
  using assms by (simp add: split_on_first split_on_no_sep)

lemma no_dot: "CHR ''.'' \<notin> set s \<Longrightarrow> drop 1 (split_on (CHR ''.'') s) = []"
  by (simp add: split_on_no_sep)

lemma decimal_part_length_Dec:
  assumes lt: "list_all (\<lambda>d. d < 10) ds" and ne: "ds \<noteq> []" and n21: "n \<le> 21"
  shows "decimal_part_length (Dec False ds n) =
           (if int (length ds) \<le> n then 0
            else if 0 < n then length ds - nat n
            else if - 6 < n then length ds + nat (- n)
            else if length ds = 1 then 0
            else length ds + 1 + length (nat_toString (nat \<bar>n - 1\<bar>)))"
proof -
  let ?cs = "map digit_char ds"
  have cs: "CHR ''.'' \<notin> set ?cs" using lt by (rule digits_no_dot)
  have tk: "CHR ''.'' \<notin> set (take m ?cs)" for m
    using cs by (auto dest: in_set_takeD)
  have dr: "CHR ''.'' \<notin> set (drop m ?cs)" for m
    using cs by (auto dest: in_set_dropD)
  have ex: "CHR ''.'' \<notin> set (nat_toString m)" for m by (rule nat_toString_no_dot)
  consider (int) "int (length ds) \<le> n"
    | (mid) "\<not> int (length ds) \<le> n" "0 < n"
    | (small) "\<not> int (length ds) \<le> n" "\<not> 0 < n" "- 6 < n"
    | (exp1) "\<not> int (length ds) \<le> n" "\<not> 0 < n" "\<not> - 6 < n" "length ds = 1"
    | (expk) "\<not> int (length ds) \<le> n" "\<not> 0 < n" "\<not> - 6 < n" "length ds \<noteq> 1"
    by blast
  then show ?thesis
  proof cases
    case int
    have "CHR ''.'' \<notin> set (?cs @ replicate (nat (n - int (length ds))) (CHR ''0''))"
      using cs by auto
    from no_dot [OF this] int n21 show ?thesis
      by (simp add: decimal_part_length_def dec_toString_def Let_def)
  next
    case mid
    from after_dot [OF tk dr, of "nat n" "nat n"] mid n21 show ?thesis
      by (simp add: decimal_part_length_def dec_toString_def Let_def)
  next
    case small
    have a: "CHR ''.'' \<notin> set ''0''" by simp
    have b: "CHR ''.'' \<notin> set (replicate (nat (- n)) (CHR ''0'') @ ?cs)"
      using cs by auto
    from after_dot [OF a b] small show ?thesis
      by (simp add: decimal_part_length_def dec_toString_def Let_def)
  next
    case exp1
    have "CHR ''.'' \<notin> set (?cs @ ''e'' @ (if n - 1 < 0 then ''-'' else ''+'') @ nat_toString (nat \<bar>n - 1\<bar>))"
      using cs ex by auto
    from no_dot [OF this] exp1 show ?thesis
      by (simp add: decimal_part_length_def dec_toString_def Let_def)
  next
    case expk
    have b: "CHR ''.'' \<notin> set (drop 1 ?cs @ ''e'' @ (if n - 1 < 0 then ''-'' else ''+'') @ nat_toString (nat \<bar>n - 1\<bar>))"
      using dr [of 1] ex by auto
    from after_dot [OF tk b, of 1] expk ne show ?thesis
      by (simp add: decimal_part_length_def dec_toString_def Let_def)
  qed
qed



lemma foldl_digits:
  "foldl (\<lambda>a d. 10 * a + d) a ds = a * 10 ^ length ds + foldl (\<lambda>a d. 10 * a + d) (0::nat) ds"
proof (induction ds arbitrary: a)
  case Nil
  show ?case by simp
next
  case (Cons d ds)
  from Cons [of "10 * a + d"] Cons [of d] show ?case by (simp add: algebra_simps)
qed

lemma digits_nat_Cons: "digits_nat (d # ds) = d * 10 ^ length ds + digits_nat ds"
  using foldl_digits [of d ds] by (simp add: digits_nat_def)

lemma digits_nat_snoc: "digits_nat (ds @ [d]) = 10 * digits_nat ds + d"
  by (simp add: digits_nat_def)

lemma digits_nat_lower:
  assumes "ds \<noteq> []" and "hd ds \<noteq> 0"
  shows "10 ^ (length ds - 1) \<le> digits_nat ds"
proof (cases ds)
  case Nil
  with assms show ?thesis by simp
next
  case (Cons d es)
  with assms have "1 \<le> d" by simp
  then have "10 ^ length es \<le> d * 10 ^ length es"
    using mult_le_mono1 [of 1 d "10 ^ length es"] by simp
  then have "10 ^ length es \<le> d * 10 ^ length es + digits_nat es" by linarith
  with Cons show ?thesis by (simp add: digits_nat_Cons)
qed

lemma digits_nat_last:
  assumes "ds \<noteq> []" and "last ds < 10" and "last ds \<noteq> 0"
  shows "\<not> 10 dvd digits_nat ds"
proof -
  from assms(1) have "ds = butlast ds @ [last ds]" by simp
  then have "digits_nat ds = 10 * digits_nat (butlast ds) + last ds"
    by (metis digits_nat_snoc)
  then have "digits_nat ds mod 10 = last ds" using assms(2) by simp
  with assms(3) show ?thesis by (simp add: dvd_eq_mod_eq_0)
qed

lemma wf_digits_last: "wf_digits ds \<Longrightarrow> last ds < 10"
  by (auto simp: wf_digits_def list_all_iff)

lemma dec_val_lower:
  assumes wf: "wf_digits ds" and n: "1 \<le> n"
  shows "10 ^ nat (n - 1) \<le> dec_val ds n"
proof -
  let ?k = "length ds"
  from wf have k: "1 \<le> ?k" by (cases ds) (auto simp: wf_digits_def)
  from wf have "ds \<noteq> []" and "hd ds \<noteq> 0" by (simp_all add: wf_digits_def)
  then have lo: "10 ^ (?k - 1) \<le> digits_nat ds" by (rule digits_nat_lower)
  then have lor: "(10::rat) ^ (?k - 1) \<le> of_nat (digits_nat ds)"
    by (metis of_nat_le_iff of_nat_numeral of_nat_power)
  show ?thesis
  proof (cases "int ?k \<le> n")
    case True
    have e: "nat (n - 1) = (?k - 1) + nat (n - int ?k)" using True k by linarith
    have "(10::rat) ^ (?k - 1) * 10 ^ nat (n - int ?k)
            \<le> of_nat (digits_nat ds) * 10 ^ nat (n - int ?k)"
      using lor by (simp add: mult_right_mono)
    with True e show ?thesis by (simp add: dec_val_def power_add)
  next
    case False
    have e: "?k - 1 = nat (n - 1) + nat (int ?k - n)" using False n by linarith
    have pe: "(10::rat) ^ (?k - 1) = 10 ^ nat (n - 1) * 10 ^ nat (int ?k - n)"
      by (subst e) (rule power_add)
    have "(10::rat) ^ nat (n - 1) * 10 ^ nat (int ?k - n) \<le> of_nat (digits_nat ds)"
      using lor unfolding pe .
    then have "(10::rat) ^ nat (n - 1) \<le> of_nat (digits_nat ds) / 10 ^ nat (int ?k - n)"
      by (simp add: pos_le_divide_eq)
    with False show ?thesis by (simp add: dec_val_def)
  qed
qed

lemma dec_val_le_10000:
  assumes "wf_digits ds" and "dec_val ds n \<le> 10000"
  shows "n \<le> 5"
proof (rule ccontr)
  assume "\<not> n \<le> 5"
  then have n: "6 \<le> n" by simp
  then have "1 \<le> n" by simp
  from dec_val_lower [OF assms(1) this] have a: "10 ^ nat (n - 1) \<le> dec_val ds n" .
  have "5 \<le> nat (n - 1)" using n by simp
  then have "(10::rat) ^ 5 \<le> 10 ^ nat (n - 1)"
    by (rule power_increasing) simp
  with a assms(2) show False by simp
qed

lemma dec_val_pos: "wf_digits ds \<Longrightarrow> 0 < dec_val ds n"
proof -
  assume wf: "wf_digits ds"
  then have "ds \<noteq> []" and "hd ds \<noteq> 0" by (simp_all add: wf_digits_def)
  then have "10 ^ (length ds - 1) \<le> digits_nat ds" by (rule digits_nat_lower)
  moreover have "(0::nat) < 10 ^ (length ds - 1)" by simp
  ultimately have "0 < digits_nat ds" by linarith
  then show ?thesis by (simp add: dec_val_def)
qed

lemma two_decimals_iff:
  assumes wf: "wf_digits ds"
  shows "at_most_two_decimals (Dec False ds n) \<longleftrightarrow> int (length ds) - n \<le> 2"
proof
  assume le: "int (length ds) - n \<le> 2"
  show "at_most_two_decimals (Dec False ds n)"
  proof (cases "int (length ds) \<le> n")
    case True
    then have "dec_val ds n * 100 = of_int (int (digits_nat ds) * 10 ^ nat (n - int (length ds)) * 100)"
      by (simp add: dec_val_def)
    then show ?thesis
      unfolding at_most_two_decimals_def js_val.simps by (metis floor_of_int if_False)
  next
    case False
    let ?j = "nat (int (length ds) - n)"
    from False le have "?j = 1 \<or> ?j = 2" by linarith
    then have h: "(100::rat) / 10 ^ ?j = 10 ^ (2 - ?j)" by auto
    have "dec_val ds n * 100 = of_nat (digits_nat ds) * (100 / 10 ^ ?j)"
      using False by (simp add: dec_val_def)
    then have "dec_val ds n * 100 = of_int (int (digits_nat ds) * 10 ^ (2 - ?j))"
      by (simp only: h) simp
    then show ?thesis
      unfolding at_most_two_decimals_def js_val.simps by (metis floor_of_int if_False)
  qed
next
  assume a: "at_most_two_decimals (Dec False ds n)"
  show "int (length ds) - n \<le> 2"
  proof (rule ccontr)
    assume "\<not> int (length ds) - n \<le> 2"
    then have gt: "3 \<le> int (length ds) - n" by simp
    let ?j = "nat (int (length ds) - n)"
    let ?i = "?j - 2"
    from gt have j: "?j = ?i + 2" and i: "1 \<le> ?i" by simp_all
    from a obtain m :: int where m: "dec_val ds n * 100 = of_int m"
      by (auto simp: at_most_two_decimals_def)
    have "dec_val ds n = of_nat (digits_nat ds) / 10 ^ ?j"
      using gt by (simp add: dec_val_def)
    also have "\<dots> = of_nat (digits_nat ds) / (10 ^ ?i * 100)"
      by (subst j) (simp add: power_add)
    finally have "dec_val ds n * 100 = of_nat (digits_nat ds) / 10 ^ ?i" by simp
    with m have "(of_nat (digits_nat ds) :: rat) = of_int m * 10 ^ ?i"
      by (simp add: field_simps)
    then have "(of_int (int (digits_nat ds)) :: rat) = of_int (m * 10 ^ ?i)" by simp
    then have eq: "int (digits_nat ds) = m * 10 ^ ?i" by (simp only: of_int_eq_iff)
    have "(10::int) dvd 10 ^ ?i" using i by (simp add: dvd_power)
    then have "10 dvd int (digits_nat ds)" using eq by simp
    then have "10 dvd digits_nat ds" by presburger
    moreover have "\<not> 10 dvd digits_nat ds"
    proof (rule digits_nat_last)
      show "ds \<noteq> []" and "last ds \<noteq> 0" using wf by (simp_all add: wf_digits_def)
      show "last ds < 10" using wf by (rule wf_digits_last)
    qed
    ultimately show False by simp
  qed
qed

lemma dec_val_10000: "dec_val [1] 5 = 10000"
  by (simp add: dec_val_def digits_nat_def)

lemma validatePaymentAmount_Num:
  "validatePaymentAmount pf (Num x) = None \<longleftrightarrow>
     \<not> isNaN x \<and> \<not> js_less x (Zero False) \<and> \<not> js_strict_eq x (Zero False)
     \<and> \<not> js_less (Dec False [1] 5) x \<and> \<not> 2 < decimal_part_length x"
  by (simp add: validatePaymentAmount_def Let_def del: One_nat_def)

lemma validatePaymentAmount_Dec:
  assumes wf: "wf_digits ds"
  shows "validatePaymentAmount pf (Num (Dec neg ds n)) = None \<longleftrightarrow>
           \<not> neg \<and> dec_val ds n \<le> 10000
           \<and> (int (length ds) - n \<le> 2 \<or> (length ds = 1 \<and> n \<le> - 6))"
proof (cases "\<not> neg \<and> dec_val ds n \<le> 10000")
  case False
  with dec_val_pos [OF wf, of n] show ?thesis
    unfolding validatePaymentAmount_Num by (auto simp: dec_val_10000 simp del: One_nat_def)
next
  case True
  then have neg: "neg = False" and le: "dec_val ds n \<le> 10000" by simp_all
  from dec_val_le_10000 [OF wf le] have n5: "n \<le> 5" .
  then have n21: "n \<le> 21" by simp
  from wf have lt: "list_all (\<lambda>d. d < 10) ds" and ne: "ds \<noteq> []"
    by (simp_all add: wf_digits_def)
  from ne have k: "1 \<le> length ds" by (cases ds) simp_all
  note dpl = decimal_part_length_Dec [OF lt ne n21]
  have len: "0 < length (nat_toString (nat \<bar>n - 1\<bar>))" by (rule nat_toString_length)
  have "2 < decimal_part_length (Dec False ds n) \<longleftrightarrow>
          \<not> (int (length ds) - n \<le> 2 \<or> (length ds = 1 \<and> n \<le> - 6))"
    unfolding dpl using k len by (auto split: if_splits)
  with neg le dec_val_pos [OF wf, of n] show ?thesis
    unfolding validatePaymentAmount_Num by (simp add: dec_val_10000 del: One_nat_def)
qed

lemma validatePaymentAmount_accepts:
  assumes "wf_num x"
  shows "validatePaymentAmount pf (Num x) = None \<longleftrightarrow>
           (\<exists>ds n. x = Dec False ds n \<and> dec_val ds n \<le> 10000
              \<and> (at_most_two_decimals x \<or> (length ds = 1 \<and> n \<le> - 6)))"
proof (cases x)
  case (Dec neg ds n)
  with assms have wf: "wf_digits ds" by simp
  from validatePaymentAmount_Dec [OF wf, of pf neg n] two_decimals_iff [OF wf, of n] Dec
  show ?thesis by auto
next
  case (Infinity neg)
  then show ?thesis unfolding validatePaymentAmount_Num by (cases neg) simp_all
qed (simp_all add: validatePaymentAmount_Num)

lemma handleApproveAssignment_validates:
  "approve_requests (handleApproveAssignment env i a) =
     (if validatePaymentAmount (parseFloat env) (Num a) = None then [(i, a)] else [])"
proof -
  have ne: "validatePaymentAmount (parseFloat env) (Num a) = Some m \<Longrightarrow> m \<noteq> []" for m
    by (auto simp: validatePaymentAmount_def Let_def split: if_splits)
  show ?thesis
  proof (cases "validatePaymentAmount (parseFloat env) (Num a)")
    case None
    then show ?thesis
      by (simp add: handleApproveAssignment_def approve_requests_def split: outcome.splits)
  next
    case (Some m)
    with ne [OF Some] show ?thesis
      by (simp add: handleApproveAssignment_def approve_requests_def)
  qed
qed

text \<open>
  Claim C1. The validator is to reject every amount with more than two decimal places,
  and \<^verbatim>\<open>handleApproveAssignment\<close> is to send only amounts it accepts. The Number
  \<open>10\<^sup>-\<^sup>7\<close> prints as \<^verbatim>\<open>1e-7\<close>, a string without a decimal point, so the count of
  decimal places is zero: the validator returns \<^verbatim>\<open>null\<close> for an amount with seven
  decimal places, and the handler sends it to the approve endpoint.
\<close>

theorem validatePaymentAmount_accepts_seven_decimals:
  "toString (Dec False [1] (- 6)) = ''1e-7''
   \<and> js_val (Dec False [1] (- 6)) = 1 / 10000000
   \<and> \<not> at_most_two_decimals (Dec False [1] (- 6))
   \<and> validatePaymentAmount pf (Num (Dec False [1] (- 6))) = None
   \<and> approve_requests (handleApproveAssignment env 7 (Dec False [1] (- 6))) =
       [(7, Dec False [1] (- 6))]"
proof -
  have fl: "\<lfloor>(1::rat) / 100000\<rfloor> = 0" by (simp add: floor_eq_iff)
  have v: "validatePaymentAmount pf (Num (Dec False [1] (- 6))) = None" for pf
    by (simp add: validatePaymentAmount_def decimal_part_length_def dec_toString_def dec_val_def
        digits_nat_def digit_char_def nat_toString_def nat_digits.simps)
  have "approve_requests (handleApproveAssignment env 7 (Dec False [1] (- 6))) =
       [(7, Dec False [1] (- 6))]"
    by (simp only: handleApproveAssignment_validates v refl if_True)
  moreover have "toString (Dec False [1] (- 6)) = ''1e-7''"
    by (simp add: dec_toString_def digit_char_def nat_toString_def nat_digits.simps)
  moreover have "js_val (Dec False [1] (- 6)) = 1 / 10000000"
    by (simp add: dec_val_def digits_nat_def)
  moreover have "\<not> at_most_two_decimals (Dec False [1] (- 6))"
    by (simp add: at_most_two_decimals_def dec_val_def digits_nat_def fl)
  ultimately show ?thesis using v by simp
qed


subsection \<open>Submitting a blank annotation\<close>

lemma trim_empty_iff: "trim v = [] \<longleftrightarrow> list_all isWhiteSpace v"
proof -
  have "trim v = [] \<longleftrightarrow> (\<forall>x \<in> set (dropWhile isWhiteSpace v). isWhiteSpace x)"
    by (simp add: trim_def dropWhile_eq_Nil_conv)
  also have "\<dots> \<longleftrightarrow> dropWhile isWhiteSpace v = []"
  proof
    assume a: "\<forall>x \<in> set (dropWhile isWhiteSpace v). isWhiteSpace x"
    show "dropWhile isWhiteSpace v = []"
    proof (rule ccontr)
      assume n: "dropWhile isWhiteSpace v \<noteq> []"
      then have "\<not> isWhiteSpace (hd (dropWhile isWhiteSpace v))"
        by (rule hd_dropWhile)
      moreover have "hd (dropWhile isWhiteSpace v) \<in> set (dropWhile isWhiteSpace v)"
        using n by simp
      ultimately show False using a by blast
    qed
  next
    assume "dropWhile isWhiteSpace v = []"
    then show "\<forall>x \<in> set (dropWhile isWhiteSpace v). isWhiteSpace x"
      by (auto dest: set_dropWhileD)
  qed
  also have "\<dots> \<longleftrightarrow> list_all isWhiteSpace v"
    by (simp add: dropWhile_eq_Nil_conv list_all_iff)
  finally show ?thesis .
qed

lemma submitGenericAnnotation_no_textarea:
  assumes "textarea w a = None"
  shows "posted (submitGenericAnnotation jp a w) = posted w"
  using assms by (simp add: submitGenericAnnotation_def setTimeout_def)

lemma submitGenericAnnotation_posts:
  assumes "textarea w a = Some v" and "trim v \<noteq> []"
  shows "\<exists>r. posted (submitGenericAnnotation jp a w) = posted w @ [Submit_assignment a r]"
  using assms by (simp add: submitGenericAnnotation_def Let_def)

text \<open>
  Claim C2. When the trimmed text of the annotation is empty, \<^verbatim>\<open>submitGenericAnnotation\<close>
  posts no message, so nothing reaches the extension host and the assignment stays as it
  is; the flag of the claim guard is untouched, and the note "Please provide an
  annotation." is shown next to the submit button when that button is in the document.
\<close>

theorem submitGenericAnnotation_blank:
  assumes "textarea w a = Some v" and "trim v = []"
  shows "posted (submitGenericAnnotation jp a w) = posted w
       \<and> isClaimingTask (submitGenericAnnotation jp a w) = isClaimingTask w
       \<and> map snd (error_divs (submitGenericAnnotation jp a w)) =
           (if Submit_generic_button a \<in> set (buttons w)
            then map snd (error_divs w) @ [''Please provide an annotation.'']
            else map snd (error_divs w))"
  using assms by (simp add: submitGenericAnnotation_def setTimeout_def)

theorem submitGenericAnnotation_blank_witness:
  "textarea blank_form 2 = Some [32, 9, 10, 8195] \<and> trim [32, 9, 10, 8195] = []
   \<and> posted (submitGenericAnnotation no_json 2 blank_form) = []
   \<and> map snd (error_divs (submitGenericAnnotation no_json 2 blank_form)) =
       [''Please provide an annotation.'']"
proof -
  have t: "textarea blank_form 2 = Some [32, 9, 10, 8195]" by (simp add: blank_form_def)
  have e: "trim [32, 9, 10, 8195] = []" by (simp add: trim_def isWhiteSpace_def)
  from submitGenericAnnotation_blank [OF t e, of no_json] t e show ?thesis
    by (simp add: blank_form_def)
qed


subsection \<open>What a batch approval reports\<close>

lemma approve_loop_counts:
  "approve_loop env st ids s e = (es, s', e') \<Longrightarrow>
     s' = s + length (filter (\<lambda>i. \<exists>u. approve env i (default_price env (projects st) (find_assignment st i)) = Resolved u) ids)
   \<and> e' = e + length (filter (\<lambda>i. \<exists>err. approve env i (default_price env (projects st) (find_assignment st i)) = Rejected err) ids)"
proof (induction ids arbitrary: s e es s' e')
  case Nil
  then show ?case by simp
next
  case (Cons i ids)
  show ?case
  proof (cases "approve env i (default_price env (projects st) (find_assignment st i))")
    case (Resolved u)
    with Cons.prems obtain es1 where "approve_loop env st ids (s + 1) e = (es1, s', e')"
      by (auto simp: Let_def split: prod.splits)
    from Cons.IH [OF this] Resolved show ?thesis by simp
  next
    case (Rejected err)
    with Cons.prems obtain es1 where "approve_loop env st ids s (e + 1) = (es1, s', e')"
      by (auto simp: Let_def split: prod.splits)
    from Cons.IH [OF this] Rejected show ?thesis by simp
  qed
qed

lemma approve_loop_shown: "shown (fst (approve_loop env st ids s e)) = []"
proof (induction ids arbitrary: s e)
  case Nil
  show ?case by (simp add: shown_simps)
next
  case (Cons i ids)
  show ?case
  proof (cases "approve env i (default_price env (projects st) (find_assignment st i))")
    case (Resolved u)
    with Cons [of "s + 1" e] show ?thesis
      by (auto simp: Let_def shown_simps split: prod.splits)
  next
    case (Rejected err)
    with Cons [of s "e + 1"] show ?thesis
      by (auto simp: Let_def shown_simps split: prod.splits)
  qed
qed

lemma handleBatchApprove_shown:
  "shown (handleBatchApprove env st) =
     (if selectedAssignments st = [] then [''Please select at least one assignment to approve.'']
      else if \<not> window_confirm env (confirm_message env st) then [confirm_message env st]
      else [confirm_message env st,
            result_message (fst (snd (approve_loop env st (selectedAssignments st) 0 0)))
              (snd (snd (approve_loop env st (selectedAssignments st) 0 0)))])"
  using approve_loop_shown [of env st "selectedAssignments st" 0 0]
  by (auto simp: handleBatchApprove_def shown_simps split: prod.splits)

lemma handleApproveAssignment_surfaces_reason:
  assumes "validatePaymentAmount (parseFloat env) (Num a) = None"
    and "approve env i a = Rejected err" and "response_error err = Some reason" and "reason \<noteq> []"
  shows "shown (handleApproveAssignment env i a) = [reason]"
  using assms by (simp add: handleApproveAssignment_def shown_def)

text \<open>
  Claim C3. A failed approval is to surface the reason the backend gives. With the
  payment of assignment 12 refused for insufficient funds, \<^verbatim>\<open>handleBatchApprove\<close> puts
  before the researcher the confirmation and the counts "Approved 1 assignment(s).
  Failed: 1" and nothing else; the reason goes to the console only. The single-assignment
  handler, given the same refusal, shows the reason.
\<close>

theorem handleBatchApprove_hides_reason:
  "shown (handleBatchApprove failing_env example_state) =
     [''Approve 2 assignment(s) for a total of $20002.50 USDC?'',
      ''Approved 1 assignment(s). Failed: 1'']
   \<and> approve failing_env 12 (Dec False [2, 5] 1) = Rejected insufficient_funds
   \<and> response_error insufficient_funds = Some ''Insufficient funds in platform wallet''
   \<and> shown (handleApproveAssignment failing_env 12 (Dec False [2, 5] 1)) =
       [''Insufficient funds in platform wallet'']"
  by (simp add: shown_def failing_env_def handleBatchApprove_def confirm_message_def
      example_env_def example_state_def find_assignment_def default_price_def task_of_def
      nat_toString_def nat_digits.simps digit_char_def result_message_def
      handleApproveAssignment_def insufficient_funds_def validatePaymentAmount_def
      decimal_part_length_def dec_toString_def dec_val_def digits_nat_def)


subsection \<open>A claim that the backend refuses with status 400\<close>

text \<open>
  Claim C5. When the claim request fails with an error whose response has status 400,
  \<^verbatim>\<open>handleClaimTask\<close> shows exactly one notification, "This task is no longer available.
  Please refresh and try another task.", and never the generic "Failed to claim task"
  message.
\<close>

theorem handleClaimTask_400:
  assumes "taskManager_claimTask env taskId = Rejected err" and "response_status err = Some 400"
  shows "fst (handleClaimTask env taskId) =
           [ShowErrorMessage ''This task is no longer available. Please refresh and try another task.'']
         \<and> (\<forall>m. ShowErrorMessage (''Failed to claim task: '' @ m) \<notin> set (fst (handleClaimTask env taskId)))"
  using assms by (simp add: handleClaimTask_def claim_try_def claim_catch_message_def)

theorem handleClaimTask_400_witness:
  "taskManager_claimTask lost_race_env 3 = Rejected bad_request
   \<and> response_status bad_request = Some 400
   \<and> handleClaimTask lost_race_env 3 =
       ([ShowErrorMessage
           ''This task is no longer available. Please refresh and try another task.''],
        Resolved ())"
proof -
  have c: "taskManager_claimTask lost_race_env 3 = Rejected bad_request"
    by (simp add: lost_race_env_def)
  have s: "response_status bad_request = Some 400" by (simp add: bad_request_def)
  have r: "snd (handleClaimTask lost_race_env 3) = Resolved ()"
    by (simp add: handleClaimTask_def claim_try_def lost_race_env_def)
  from handleClaimTask_400 [OF c s] c s r show ?thesis
    by (simp add: prod_eq_iff)
qed


subsection \<open>Controls of an assignment card\<close>



lemma escapeHtml_None: "escapeHtml v = None \<longleftrightarrow> \<not> printable v"
  by (cases v) (simp_all add: escapeHtml_def printable_def split: option.splits)













lemma set_replace_all:
  "set (replace_all c by s) = (if c \<in> set s then set by else {}) \<union> (set s - {c})"
  by (induction s) (auto simp: replace_all_def)

lemma escapeHtml_text_no_markup:
  "34 \<notin> set (escapeHtml_text s)" "39 \<notin> set (escapeHtml_text s)"
  "60 \<notin> set (escapeHtml_text s)" "62 \<notin> set (escapeHtml_text s)"
  by (auto simp: escapeHtml_text_def set_replace_all units_def split: if_splits)

lemma renderAssignmentCard_renders:
  assumes "printable (wv_status a)"
    and "truthy (wv_price_per_task (card_task_of a)) \<longrightarrow> printable (wv_price_per_task (card_task_of a))"
    and "printable (or_else (wv_feedback a) (JStr (units ''No feedback provided'')))"
  shows "\<exists>markup. renderAssignmentCard pc fmt a = Some markup"
proof -
  from assms(1) obtain raw where r: "js_String (wv_status a) = Some raw"
    by (auto simp: printable_def)
  from assms(1) obtain escaped where e: "escapeHtml (wv_status a) = Some escaped"
    using escapeHtml_None [of "wv_status a"] by auto
  from assms(3) obtain f where
    f: "escapeHtml (or_else (wv_feedback a) (JStr (units ''No feedback provided''))) = Some f"
    using escapeHtml_None [of "or_else (wv_feedback a) (JStr (units ''No feedback provided''))"]
    by auto
  show ?thesis
  proof (cases "truthy (wv_price_per_task (card_task_of a))")
    case True
    with assms(2) obtain p where "js_String (wv_price_per_task (card_task_of a)) = Some p"
      by (auto simp: printable_def)
    with True r e f show ?thesis
      by (auto simp: renderAssignmentCard_def Let_def units_def)
  next
    case False
    with r e f show ?thesis
      by (auto simp: renderAssignmentCard_def Let_def units_def)
  qed
qed




subsection \<open>The arithmetic of the amounts\<close>





lemma pow2_mod5: "(2::int) ^ j mod 5 \<noteq> 0"
proof (induction j)
  case 0
  show ?case by simp
next
  case (Suc j)
  define r where "r = (2::int) ^ j mod 5"
  have b: "0 \<le> r" "r < 5" by (simp_all add: r_def)
  have "(2::int) ^ Suc j mod 5 = (2 * r) mod 5"
    by (simp add: r_def mod_mult_right_eq)
  moreover have "(2 * r) mod 5 \<noteq> 0" using Suc b unfolding r_def [symmetric] by presburger
  ultimately show ?case by simp
qed

lemma pow2_not_ten: "(2::int) ^ j \<noteq> m * 10"
proof
  assume "(2::int) ^ j = m * 10"
  then have "(2::int) ^ j mod 5 = 0" by simp
  with pow2_mod5 [of j] show False by simp
qed

lemma not_dyadic_tenth: "\<not> dyadic (1 / 10)"
proof
  assume "dyadic (1 / 10)"
  then obtain m :: int and j :: nat where "(1::rat) / 10 = of_int m / 2 ^ j"
    by (auto simp: dyadic_def)
  then have "(2::rat) ^ j = of_int m * 10" by (simp add: field_simps)
  then have "(of_int (2 ^ j) :: rat) = of_int (m * 10)" by simp
  then have "(2::int) ^ j = m * 10" by (simp only: of_int_eq_iff)
  then show False using pow2_not_ten by blast
qed













subsection \<open>The claim guard of the webview\<close>

lemma step_keeps_claims:
  "isClaimingTask w \<Longrightarrow> filter is_claim (posted (step jp e w)) = filter is_claim (posted w)"
proof (cases e)
  case (Call_submitGenericAnnotation a)
  then show ?thesis
    by (simp add: submitGenericAnnotation_def setTimeout_def Let_def is_claim_def)
next
  case (Fire i)
  then show ?thesis
    by (cases "snd (timers w ! i)") simp_all
qed (simp_all add: claimTask_def claimTaskFromProject_def)

lemma flag_held_no_claims:
  "flag_held jp es w \<Longrightarrow> filter is_claim (posted (run jp es w)) = filter is_claim (posted w)"
proof (induction es arbitrary: w)
  case Nil
  then show ?case by simp
next
  case (Cons e es)
  then have "isClaimingTask w" and "flag_held jp es (step jp e w)" by simp_all
  with Cons.IH [of "step jp e w"] step_keeps_claims [of w jp e] show ?case by simp
qed

lemma step_keeps_flag:
  assumes "isClaimingTask w" and "resets_after (now w + elapsed (e # es)) w"
  shows "isClaimingTask (step jp e w) \<and> resets_after (now (step jp e w) + elapsed es) (step jp e w)"
proof (cases e)
  case (Call_claimTask t)
  with assms show ?thesis by (simp add: claimTask_def)
next
  case (Call_claimTaskFromProject p)
  with assms show ?thesis by (simp add: claimTaskFromProject_def)
next
  case (Call_submitGenericAnnotation a)
  with assms show ?thesis
    by (auto simp: submitGenericAnnotation_def setTimeout_def Let_def resets_after_def)
next
  case (Edit_textarea a v)
  with assms show ?thesis by (simp add: resets_after_def)
next
  case (Advance d)
  with assms show ?thesis by (simp add: resets_after_def add.assoc)
next
  case (Fire i)
  show ?thesis
  proof (cases "i < length (timers w) \<and> fst (timers w ! i) \<le> now w")
    case False
    with Fire assms show ?thesis by (auto simp: resets_after_def)
  next
    case True
    then have m: "timers w ! i \<in> set (timers w)" by simp
    with assms(2) True Fire have "snd (timers w ! i) \<noteq> Reset_isClaimingTask"
      by (fastforce simp: resets_after_def)
    then obtain k where k: "snd (timers w ! i) = Remove_error_div k"
      by (cases "snd (timers w ! i)") auto
    have sub: "set (take i (timers w) @ drop (Suc i) (timers w)) \<subseteq> set (timers w)"
      by (auto dest: in_set_takeD in_set_dropD)
    from Fire True k assms sub show ?thesis
      by (auto simp: resets_after_def)
  qed
qed

lemma flag_held_until_reset_due:
  "isClaimingTask w \<Longrightarrow> resets_after (now w + elapsed es) w \<Longrightarrow> flag_held jp es w"
proof (induction es arbitrary: w)
  case Nil
  then show ?case by simp
next
  case (Cons e es)
  from step_keeps_flag [OF Cons.prems, of jp]
  have "isClaimingTask (step jp e w)"
    and "resets_after (now (step jp e w) + elapsed es) (step jp e w)" by simp_all
  then have "flag_held jp es (step jp e w)" by (rule Cons.IH)
  with Cons.prems(1) show ?case by simp
qed

lemma claim_sets_timer:
  assumes "idle w" and "d < 3000"
  shows "resets_after (now (claimTask t w) + d) (claimTask t w)"
    and "resets_after (now (claimTaskFromProject p w) + d) (claimTaskFromProject p w)"
  using assms
  by (auto simp: idle_def claimTask_def claimTaskFromProject_def setTimeout_def disable_def
      resets_after_def image_iff)

lemma filter_remove_nth:
  assumes "i < length xs"
  shows "length (filter P xs) =
           length (filter P (take i xs @ drop (Suc i) xs)) + (if P (xs ! i) then 1 else 0)"
proof -
  have "xs = take i xs @ xs ! i # drop (Suc i) xs"
    using assms by (rule id_take_nth_drop)
  then have "length (filter P xs) = length (filter P (take i xs @ xs ! i # drop (Suc i) xs))"
    by simp
  then show ?thesis by simp
qed

lemma claim_inv_step: "claim_inv w \<Longrightarrow> claim_inv (step jp e w)"
proof (cases e)
  case (Fire i)
  assume inv: "claim_inv w"
  show ?thesis
  proof (cases "i < length (timers w) \<and> fst (timers w ! i) \<le> now w")
    case False
    with Fire inv show ?thesis by auto
  next
    case True
    then have i: "i < length (timers w)" by simp
    note c = filter_remove_nth [OF i, of "\<lambda>x. snd x = Reset_isClaimingTask"]
    show ?thesis
    proof (cases "snd (timers w ! i)")
      case Reset_isClaimingTask
      with Fire True inv c show ?thesis by (auto simp: claim_inv_def split: if_splits)
    next
      case (Remove_error_div k)
      with Fire True inv c show ?thesis by (auto simp: claim_inv_def split: if_splits)
    qed
  qed
qed (auto simp: claim_inv_def claimTask_def claimTaskFromProject_def submitGenericAnnotation_def
       setTimeout_def disable_def Let_def)

lemma claim_inv_run: "claim_inv w \<Longrightarrow> claim_inv (run jp es w)"
  by (induction es arbitrary: w) (simp_all add: claim_inv_step)

lemma claim_inv_idle: "claim_inv w \<Longrightarrow> \<not> isClaimingTask w \<Longrightarrow> idle w"
  by (auto simp: claim_inv_def idle_def filter_empty_conv)

text \<open>
  Claim C8. Take a state in which no claim is pending, and let \<^verbatim>\<open>claimTask\<close> or
  \<^verbatim>\<open>claimTaskFromProject\<close> set the flag and post its message. Then, whatever happens
  next, as long as the flag stays set no further claim message is posted; and the flag
  stays set through every run of events that takes less than 3000 ms.
\<close>

theorem claim_guard:
  assumes "idle w" and "w1 = claimTask t w \<or> w1 = claimTaskFromProject p w"
  shows "(flag_held jp es w1 \<longrightarrow>
            filter is_claim (posted (run jp es w1)) = filter is_claim (posted w1))
       \<and> (elapsed es < 3000 \<longrightarrow> flag_held jp es w1)"
proof -
  from assms have f: "isClaimingTask w1"
    by (auto simp: idle_def claimTask_def claimTaskFromProject_def setTimeout_def disable_def)
  have "flag_held jp es w1" if "elapsed es < 3000"
  proof -
    from assms claim_sets_timer [OF assms(1) that]
    have "resets_after (now w1 + elapsed es) w1" by auto
    with f show ?thesis by (rule flag_held_until_reset_due)
  qed
  with flag_held_no_claims [of jp es w1] show ?thesis by simp
qed

theorem claim_guard_witness:
  "idle blank_form \<and> elapsed example_events < 3000
   \<and> flag_held no_json example_events (claimTask 1 blank_form)
   \<and> filter is_claim (posted (run no_json example_events (claimTask 1 blank_form))) =
       [Claim_task 1]"
proof -
  have i: "idle blank_form" by (simp add: idle_def blank_form_def)
  have e: "elapsed example_events < 3000" by (simp add: example_events_def)
  have p: "filter is_claim (posted (claimTask 1 blank_form)) = [Claim_task (1::nat)]"
    by (simp add: claimTask_def setTimeout_def disable_def blank_form_def is_claim_def)
  have w: "claimTask 1 blank_form = claimTask 1 blank_form
           \<or> claimTask 1 blank_form = claimTaskFromProject 0 blank_form" by simp
  from claim_guard [OF i w, of no_json example_events] i e p show ?thesis by simp
qed


subsection \<open>Login stores credentials for annotators only\<close>

lemma login_stores_only_for_annotators:
  assumes "snd (login st r) \<noteq> st"
  shows "\<exists>d u. r = Resolved d \<and> data_user d = Some u \<and> user_type u = ''annotator''
           \<and> fst (login st r) = Inr u"
  using assms
  by (auto simp: login_def Let_def split: outcome.splits option.splits if_splits)

lemma login_annotator_stores:
  assumes "data_user d = Some u" and "user_type u = ''annotator''"
  shows "snd (login st (Resolved d)) ''user'' = Some (User u)
       \<and> snd (login st (Resolved d)) ''authToken'' = map_option Token (data_token d)
       \<and> (\<forall>k. k \<noteq> ''user'' \<and> k \<noteq> ''authToken'' \<longrightarrow> snd (login st (Resolved d)) k = st k)"
  using assms
  by (auto simp: login_def Let_def storage_set_def)

text \<open>
  Claim C9. When the user of a login response is not an annotator, \<^verbatim>\<open>login\<close> throws
  the "Only annotators" error and leaves the storage as it was, so \<^verbatim>\<open>isAuthenticated\<close>
  answers as before, false if it was false. Whenever \<^verbatim>\<open>login\<close> changes the storage,
  the response carried an annotator and the call returned that user.
\<close>

theorem login_non_annotator:
  assumes "data_user d = Some u" and "user_type u \<noteq> ''annotator''"
  shows "login st (Resolved d) = (Inl only_annotators, st)
       \<and> isAuthenticated (snd (login st (Resolved d))) = isAuthenticated st
       \<and> (snd (login st' r) = st'
            \<or> (\<exists>d' u'. r = Resolved d' \<and> data_user d' = Some u'
                  \<and> user_type u' = ''annotator'' \<and> fst (login st' r) = Inr u'))"
proof -
  have "login st (Resolved d) = (Inl only_annotators, st)"
    using assms by (simp add: login_def login_catch_def only_annotators_def plain_error_def)
  moreover have "snd (login st' r) = st'
            \<or> (\<exists>d' u'. r = Resolved d' \<and> data_user d' = Some u'
                  \<and> user_type u' = ''annotator'' \<and> fst (login st' r) = Inr u')"
    using login_stores_only_for_annotators [of st' r] by blast
  ultimately show ?thesis by simp
qed

theorem login_non_annotator_witness:
  "data_user researcher_login = Some \<lparr>user_id = 4, username = ''rita'', user_type = ''researcher''\<rparr>
   \<and> ''researcher'' \<noteq> ''annotator''
   \<and> login (\<lambda>k. None) (Resolved researcher_login) = (Inl only_annotators, (\<lambda>k. None))
   \<and> isAuthenticated (snd (login (\<lambda>k. None) (Resolved researcher_login))) = False"
proof -
  let ?u = "\<lparr>user_id = 4, username = ''rita'', user_type = ''researcher''\<rparr>"
  have d: "data_user researcher_login = Some ?u" by (simp add: researcher_login_def)
  have t: "user_type ?u \<noteq> ''annotator''" by simp
  have a: "isAuthenticated (\<lambda>k. None) = False"
    by (simp add: isAuthenticated_def storage_has_def)
  from login_non_annotator [OF d t, of "\<lambda>k. None" "\<lambda>k. None" "Resolved researcher_login"] d a
  show ?thesis by simp
qed


subsection \<open>Amounts of a batch approval\<close>

lemma approve_loop_requests:
  "approve_requests (fst (approve_loop env st ids s e)) =
     map (\<lambda>i. (i, default_price env (projects st) (find_assignment st i))) ids"
proof (induction ids arbitrary: s e)
  case Nil
  show ?case by (simp add: approve_requests_simps)
next
  case (Cons i ids)
  show ?case
  proof (cases "approve env i (default_price env (projects st) (find_assignment st i))")
    case (Resolved u)
    with Cons [of "s + 1" e] show ?thesis
      by (auto simp: Let_def approve_requests_simps split: prod.splits)
  next
    case (Rejected err)
    with Cons [of s "e + 1"] show ?thesis
      by (auto simp: Let_def approve_requests_simps split: prod.splits)
  qed
qed


lemma handleBatchApprove_requests:
  assumes "selectedAssignments st \<noteq> []" and "window_confirm env (confirm_message env st)"
  shows "approve_requests (handleBatchApprove env st) =
           map (\<lambda>i. (i, default_price env (projects st) (find_assignment st i)))
             (selectedAssignments st)"
  using assms approve_loop_requests [of env st "selectedAssignments st" 0 0]
  by (auto simp: handleBatchApprove_def approve_requests_simps split: prod.splits)

lemma total_payment_pending:
  "total_payment env st acc ids =
     foldl (js_plus env) acc
       (map (\<lambda>i. default_price env (projects st) (find_assignment st i))
          (filter (\<lambda>i. i \<in> assignment_id ` set (pendingAssignments st)) ids))"
proof (induction ids arbitrary: acc)
  case Nil
  show ?case by simp
next
  case (Cons i ids)
  show ?case
  proof (cases "find_assignment st i")
    case None
    then have "i \<notin> assignment_id ` set (pendingAssignments st)"
      by (auto simp: find_assignment_def find_None_iff)
    with None Cons show ?thesis by simp
  next
    case (Some a)
    then have "i \<in> assignment_id ` set (pendingAssignments st)"
      by (auto simp: find_assignment_def find_Some_iff)
    with Some Cons show ?thesis by simp
  qed
qed

lemma total_payment_sum:
  "set ids \<subseteq> assignment_id ` set (pendingAssignments st) \<Longrightarrow>
     total_payment env st acc ids =
       foldl (js_plus env) acc
         (map (\<lambda>i. default_price env (projects st) (find_assignment st i)) ids)"
proof -
  assume "set ids \<subseteq> assignment_id ` set (pendingAssignments st)"
  then have "filter (\<lambda>i. i \<in> assignment_id ` set (pendingAssignments st)) ids = ids"
    by (auto simp: filter_id_conv)
  then show ?thesis by (simp add: total_payment_pending)
qed


text \<open>
  When every selected id is in the pending list, the total of the dialog is the sum of all
  the amounts sent.
\<close>

lemma handleBatchApprove_total_of_pending_selection:
  assumes "selectedAssignments st \<noteq> []"
    and "window_confirm env (confirm_message env st)"
    and "set (selectedAssignments st) \<subseteq> assignment_id ` set (pendingAssignments st)"
  shows "confirm_message env st =
           ''Approve '' @ nat_toString (length (selectedAssignments st))
             @ '' assignment(s) for a total of $''
             @ toFixed2 env (foldl (js_plus env) (Zero False)
                 (map snd (approve_requests (handleBatchApprove env st))))
             @ '' USDC?''"
proof -
  have "map snd (approve_requests (handleBatchApprove env st)) =
          map (\<lambda>i. default_price env (projects st) (find_assignment st i)) (selectedAssignments st)"
    by (simp add: handleBatchApprove_requests [OF assms(1,2)] comp_def)
  with total_payment_sum [OF assms(3), of env "Zero False"] show ?thesis
    by (simp add: confirm_message_def)
qed

text \<open>
  The events the page renders keep the selection within the pending list whenever the
  pending list is not empty, so the button "Approve Selected" is offered only for such a
  selection. \<^verbatim>\<open>handleBatchApprove\<close> itself does not check it.
\<close>

lemma selection_inv_step: "selection_inv st \<Longrightarrow> rendered e st \<Longrightarrow> selection_inv (ui_step e st)"
  by (cases e)
    (auto simp: selection_inv_def loadPendingAssignments_def toggleAssignmentSelection_def
      toggleSelectAll_def split: outcome.splits)

lemma selection_inv_run:
  "selection_inv st \<Longrightarrow> rendered_run es st \<Longrightarrow> selection_inv (fold ui_step es st)"
  by (induction es arbitrary: st) (simp_all add: selection_inv_step)

lemma offered_selection_pending:
  "selection_inv st \<Longrightarrow> approve_selected_offered st \<Longrightarrow>
     set (selectedAssignments st) \<subseteq> assignment_id ` set (pendingAssignments st)"
  by (auto simp: selection_inv_def approve_selected_offered_def)




end
